theory Spec2Isabelle
  imports Complex_Main
begin

section \<open>The health gate (db.ts)\<close>

text \<open>
  The module state of db.ts: \<^verbatim>\<open>consecutiveFailures\<close> starts at 0 and is only ever
  incremented or reset, so it is a natural number; \<^verbatim>\<open>lastFailureTime\<close> and every
  reading of \<^verbatim>\<open>Date.now()\<close> are milliseconds, as integers. The powers of two and
  their products with 1000 are exact in a JavaScript number, and once
  \<^verbatim>\<open>Math.pow\<close> overflows to Infinity the minimum is \<^verbatim>\<open>MAX_BACKOFF_MS\<close>, as it is
  here with unbounded integers.
\<close>

record health =
  consecutiveFailures :: nat
  lastFailureTime :: int

definition MAX_BACKOFF_MS :: int where
  "MAX_BACKOFF_MS = 60000"

definition BASE_BACKOFF_MS :: int where
  "BASE_BACKOFF_MS = 1000"

definition initial_health :: health where
  "initial_health = \<lparr>consecutiveFailures = 0, lastFailureTime = 0\<rparr>"

definition backoffMs :: "health \<Rightarrow> int" where
  "backoffMs h = min (BASE_BACKOFF_MS * 2 ^ (consecutiveFailures h - 1)) MAX_BACKOFF_MS"

definition isDatabaseHealthy :: "health \<Rightarrow> int \<Rightarrow> bool" where
  "isDatabaseHealthy h now =
     (if consecutiveFailures h = 0 then True
      else now - lastFailureTime h \<ge> backoffMs h)"

definition markHealthy :: "health \<Rightarrow> health" where
  "markHealthy h = h\<lparr>consecutiveFailures := 0, lastFailureTime := 0\<rparr>"

definition markUnhealthy :: "int \<Rightarrow> health \<Rightarrow> health" where
  "markUnhealthy now h =
     h\<lparr>consecutiveFailures := Suc (consecutiveFailures h), lastFailureTime := now\<rparr>"

text \<open>\<^verbatim>\<open>String.prototype.includes\<close>: the needle occurs somewhere in the string.\<close>

fun starts_with :: "string \<Rightarrow> string \<Rightarrow> bool" where
  "starts_with s [] = True"
| "starts_with [] (c # cs) = False"
| "starts_with (x # xs) (c # cs) = (x = c \<and> starts_with xs cs)"

fun str_includes :: "string \<Rightarrow> string \<Rightarrow> bool" where
  "str_includes [] needle = (needle = [])"
| "str_includes (x # xs) needle = (starts_with (x # xs) needle \<or> str_includes xs needle)"

text \<open>
  What a promise can be rejected with: an \<^verbatim>\<open>Error\<close> carrying its message, or any
  other thrown value. The race of \<^verbatim>\<open>queryFn()\<close> against the timer has three
  outcomes; which one happens is the environment's choice, so the operation hands it
  back together with the store it leaves behind.
\<close>

datatype js_error = Error string | NotAnError

datatype 'a race = Resolved 'a | Rejected js_error | TimerFired

datatype 'a settled = Fulfilled "'a option" | Failed js_error

definition is_connectivity_error :: "js_error \<Rightarrow> bool" where
  "is_connectivity_error e =
     (case e of NotAnError \<Rightarrow> False
      | Error message \<Rightarrow>
          str_includes message ''connection'' \<or>
          str_includes message ''timeout'' \<or>
          str_includes message ''ECONNREFUSED'' \<or>
          str_includes message ''ENOTFOUND'' \<or>
          str_includes message ''ETIMEDOUT'')"

text \<open>
  \<^verbatim>\<open>safeQuery(queryFn)\<close>. The gate is read at \<open>now\<close>; a failure is stamped with the
  later clock reading \<open>failedAt\<close>. The result is what the returned promise settles
  with, the new module state and the store.
\<close>

definition note_failure :: "js_error \<Rightarrow> int \<Rightarrow> health \<Rightarrow> health" where
  "note_failure e failedAt h = (if is_connectivity_error e then markUnhealthy failedAt h else h)"

definition safeQuery ::
  "('s \<Rightarrow> 'a race \<times> 's) \<Rightarrow> int \<Rightarrow> int \<Rightarrow> health \<times> 's \<Rightarrow> 'a settled \<times> health \<times> 's" where
  "safeQuery queryFn now failedAt hs =
     (let h = fst hs; s = snd hs in
      if \<not> isDatabaseHealthy h now then (Fulfilled None, h, s)
      else
        (let r = queryFn s in
         case fst r of
           Resolved v \<Rightarrow> (Fulfilled (Some v), markHealthy h, snd r)
         | Rejected e \<Rightarrow> (Failed e, note_failure e failedAt h, snd r)
         | TimerFired \<Rightarrow>
             (Failed (Error ''Query timeout''),
              note_failure (Error ''Query timeout'') failedAt h, snd r)))"

text \<open>
  \<^verbatim>\<open>fireAndForget\<close>: the promise of \<^verbatim>\<open>safeQuery\<close> is dropped; a rejection only
  reaches the optional error callback, which logs.
\<close>

definition fireAndForget ::
  "('s \<Rightarrow> 'a race \<times> 's) \<Rightarrow> int \<Rightarrow> int \<Rightarrow> health \<times> 's \<Rightarrow> health \<times> 's" where
  "fireAndForget queryFn now failedAt hs = snd (safeQuery queryFn now failedAt hs)"

section \<open>JSON values and the jsonb operators the statements use\<close>

text \<open>
  A \<^verbatim>\<open>JSONB\<close> column holds a JSON value or SQL NULL (\<open>None\<close>). Objects are
  association lists read from the left.
\<close>

datatype json =
    JNull
  | JBool bool
  | JNum rat
  | JStr string
  | JArr "json list"
  | JObj "(string \<times> json) list"

fun obj_put :: "string \<Rightarrow> json \<Rightarrow> (string \<times> json) list \<Rightarrow> (string \<times> json) list" where
  "obj_put k v [] = [(k, v)]"
| "obj_put k v (p # ps) = (if fst p = k then (k, v) # ps else p # obj_put k v ps)"

text \<open>
  \<^verbatim>\<open>JSON.stringify\<close> of a string (QuoteJSONString): the text between double quotes,
  with the quote, the backslash and the control characters escaped.
\<close>

definition hex_digit :: "nat \<Rightarrow> char" where
  "hex_digit n = ''0123456789abcdef'' ! (n mod 16)"

definition json_escape :: "char \<Rightarrow> string" where
  "json_escape c =
     (if c = CHR 0x22 then [CHR 0x5C, CHR 0x22]
      else if c = CHR 0x5C then [CHR 0x5C, CHR 0x5C]
      else if c = CHR 0x08 then [CHR 0x5C, CHR ''b'']
      else if c = CHR 0x09 then [CHR 0x5C, CHR ''t'']
      else if c = CHR 0x0A then [CHR 0x5C, CHR ''n'']
      else if c = CHR 0x0C then [CHR 0x5C, CHR ''f'']
      else if c = CHR 0x0D then [CHR 0x5C, CHR ''r'']
      else if of_char c < (32::nat)
      then [CHR 0x5C, CHR ''u'', CHR ''0'', CHR ''0'',
            hex_digit (of_char c div 16), hex_digit (of_char c)]
      else [c])"

definition json_quote :: "string \<Rightarrow> string" where
  "json_quote s = [CHR 0x22] @ concat (map json_escape s) @ [CHR 0x22]"

text \<open>The operator \<^verbatim>\<open>->\<close> with a key: NULL unless the left side is an object with that key.\<close>

definition jsonb_field :: "json option \<Rightarrow> string \<Rightarrow> json option" where
  "jsonb_field j k = (case j of Some (JObj kvs) \<Rightarrow> map_of kvs k | _ \<Rightarrow> None)"

text \<open>
  \<^verbatim>\<open>(j ->> k) IS NULL\<close>: the operator \<^verbatim>\<open>->>\<close> gives NULL for a missing key and for
  the JSON value null, and a text for every other value.
\<close>

definition jsonb_text_is_null :: "json option \<Rightarrow> string \<Rightarrow> bool" where
  "jsonb_text_is_null j k =
     (case jsonb_field j k of None \<Rightarrow> True | Some JNull \<Rightarrow> True | Some v \<Rightarrow> False)"

text \<open>
  \<^verbatim>\<open>jsonb_set(target, '{state,output}', v)\<close> with the default
  \<^verbatim>\<open>create_if_missing\<close>: the last key is created or replaced when the step
  \<^verbatim>\<open>state\<close> leads to an object; a missing step or a scalar there returns the target
  as it is; PostgreSQL raises on a scalar target and on a text key into an array.
\<close>

definition jsonb_set_state_output :: "json \<Rightarrow> json \<Rightarrow> string + json" where
  "jsonb_set_state_output target v =
     (case target of
        JObj kvs \<Rightarrow>
          (case map_of kvs ''state'' of
             None \<Rightarrow> Inr target
           | Some (JObj st) \<Rightarrow> Inr (JObj (obj_put ''state'' (JObj (obj_put ''output'' v st)) kvs))
           | Some (JArr xs) \<Rightarrow> Inl ''path element at position 2 is not an integer''
           | Some other \<Rightarrow> Inr target)
      | JArr xs \<Rightarrow> Inl ''path element at position 1 is not an integer''
      | other \<Rightarrow> Inl ''cannot set path in scalar'')"

definition coalesce :: "'a option \<Rightarrow> 'a option \<Rightarrow> 'a option" where
  "coalesce a b = (case a of None \<Rightarrow> b | Some x \<Rightarrow> Some x)"

text \<open>
  The rank the status gate computes from the stored content:
  \<^verbatim>\<open>COALESCE(CASE (content->'state'->>'status') WHEN 'pending' THEN 1 ... ELSE 0 END, 0)\<close>.
  Only a JSON string can give one of the four words as its text.
\<close>

definition stored_status :: "json option \<Rightarrow> string option" where
  "stored_status content =
     (case jsonb_field (jsonb_field content ''state'') ''status'' of
        Some (JStr s) \<Rightarrow> Some s
      | _ \<Rightarrow> None)"

definition stored_rank :: "json option \<Rightarrow> int" where
  "stored_rank content =
     (case stored_status content of
        None \<Rightarrow> 0
      | Some s \<Rightarrow>
          if s = ''pending'' then 1
          else if s = ''running'' then 2
          else if s = ''completed'' then 3
          else if s = ''error'' then 3
          else 0)"

section \<open>Event payloads (the interfaces of index.ts)\<close>

text \<open>
  An optional field is an \<open>option\<close>. JavaScript numbers are rationals in JSON;
  token counts and clock readings are integers.
\<close>

record SessionInfo =
  si_id :: string
  si_title :: "string option"
  si_parentID :: "string option"
  si_projectID :: "string option"
  si_directory :: "string option"
  si_share :: "string option option"

record Tokens =
  tk_input :: "int option"
  tk_output :: "int option"
  tk_reasoning :: "int option"
  tk_cache :: "(int option \<times> int option) option"

record TextPart =
  tp_type :: string
  tp_text :: "string option"

record MessageInfo =
  mi_id :: string
  mi_sessionID :: string
  mi_role :: string
  mi_model :: "(string option \<times> string option) option"
  mi_providerID :: "string option"
  mi_modelID :: "string option"
  mi_parts :: "TextPart list option"
  mi_summary :: "string option option"
  mi_system :: "string option"
  mi_tokens :: "Tokens option"

record PartState =
  ps_status :: "string option"
  ps_title :: "string option"
  ps_input :: "json option"
  ps_output :: "json option"
  ps_metadata :: "json option"
  ps_error :: "string option"
  ps_time :: "(int option \<times> int option) option"

record PartInfo =
  pi_id :: string
  pi_sessionID :: string
  pi_messageID :: string
  pi_type :: string
  pi_tool :: "string option"
  pi_text :: "string option"
  pi_callID :: "string option"
  pi_state :: "PartState option"
  pi_cost :: "rat option"
  pi_tokens :: "Tokens option"

record ErrorInfo =
  er_name :: "string option"
  er_data :: "string option option"

text \<open>\<^verbatim>\<open>x || null\<close> on an optional string: the empty string is falsy too.\<close>

definition or_null :: "string option \<Rightarrow> string option" where
  "or_null x = (case x of None \<Rightarrow> None | Some s \<Rightarrow> if s = [] then None else Some s)"

definition js_truthy :: "json \<Rightarrow> bool" where
  "js_truthy j =
     (case j of
        JNull \<Rightarrow> False
      | JBool b \<Rightarrow> b
      | JNum n \<Rightarrow> n \<noteq> 0
      | JStr s \<Rightarrow> s \<noteq> []
      | JArr xs \<Rightarrow> True
      | JObj kvs \<Rightarrow> True)"

text \<open>
  \<^verbatim>\<open>JSON.stringify\<close> of a payload, as \<^verbatim>\<open>sql.json\<close> sends it: a field that is
  undefined is left out.
\<close>

definition opt_field :: "string \<Rightarrow> ('a \<Rightarrow> json) \<Rightarrow> 'a option \<Rightarrow> (string \<times> json) list" where
  "opt_field k f x = (case x of None \<Rightarrow> [] | Some v \<Rightarrow> [(k, f v)])"

definition int_json :: "int \<Rightarrow> json" where
  "int_json n = JNum (of_int n)"

definition cache_json :: "int option \<times> int option \<Rightarrow> json" where
  "cache_json c = JObj (opt_field ''read'' int_json (fst c) @ opt_field ''write'' int_json (snd c))"

definition tokens_json :: "Tokens \<Rightarrow> json" where
  "tokens_json t =
     JObj (opt_field ''input'' int_json (tk_input t) @
           opt_field ''output'' int_json (tk_output t) @
           opt_field ''reasoning'' int_json (tk_reasoning t) @
           opt_field ''cache'' cache_json (tk_cache t))"

definition time_json :: "int option \<times> int option \<Rightarrow> json" where
  "time_json c = JObj (opt_field ''start'' int_json (fst c) @ opt_field ''end'' int_json (snd c))"

definition state_json :: "PartState \<Rightarrow> json" where
  "state_json st =
     JObj (opt_field ''status'' JStr (ps_status st) @
           opt_field ''title'' JStr (ps_title st) @
           opt_field ''input'' id (ps_input st) @
           opt_field ''output'' id (ps_output st) @
           opt_field ''metadata'' id (ps_metadata st) @
           opt_field ''error'' JStr (ps_error st) @
           opt_field ''time'' time_json (ps_time st))"

definition part_json :: "PartInfo \<Rightarrow> json" where
  "part_json part =
     JObj ([(''id'', JStr (pi_id part)),
            (''sessionID'', JStr (pi_sessionID part)),
            (''messageID'', JStr (pi_messageID part)),
            (''type'', JStr (pi_type part))] @
           opt_field ''tool'' JStr (pi_tool part) @
           opt_field ''text'' JStr (pi_text part) @
           opt_field ''callID'' JStr (pi_callID part) @
           opt_field ''state'' state_json (pi_state part) @
           opt_field ''cost'' JNum (pi_cost part) @
           opt_field ''tokens'' tokens_json (pi_tokens part))"

definition text_part_json :: "TextPart \<Rightarrow> json" where
  "text_part_json p = JObj ((''type'', JStr (tp_type p)) # opt_field ''text'' JStr (tp_text p))"

definition parts_json :: "TextPart list \<Rightarrow> json" where
  "parts_json ps = JArr (map text_part_json ps)"

definition error_json :: "ErrorInfo \<Rightarrow> json" where
  "error_json e =
     JObj (opt_field ''name'' JStr (er_name e) @
           opt_field ''data'' (\<lambda>m. JObj (opt_field ''message'' JStr m)) (er_data e))"

section \<open>The Store: tables of sql/schema.sql and the statements of index.ts\<close>

text \<open>
  A table with a text primary key is a map from the key to the row; a table whose key
  the database generates is the list of its rows in insertion order. The columns
  \<^verbatim>\<open>created_at\<close>, \<^verbatim>\<open>updated_at\<close> and \<^verbatim>\<open>deleted_at\<close> are left out: no statement
  reads them. A nullable column is an \<open>option\<close>. The table \<^verbatim>\<open>commands\<close> is left out
  with the handler that fills it. Texts are taken to hold no NUL character, which
  PostgreSQL refuses.
\<close>

record session_row =
  s_project_id :: "string option"
  s_parent_id :: "string option"
  s_directory :: "string option"
  s_title :: "string option"
  s_status :: "string option"
  s_model_provider :: "string option"
  s_model_id :: "string option"
  s_share_url :: "string option"
  s_input_tokens :: "int option"
  s_output_tokens :: "int option"
  s_cache_read_tokens :: "int option"
  s_cache_write_tokens :: "int option"
  s_reasoning_tokens :: "int option"
  s_context_tokens :: "int option"
  s_peak_context_tokens :: "int option"
  s_estimated_cost :: "rat option"
  s_compaction_count :: "int option"

record message_row =
  m_session_id :: string
  m_role :: string
  m_model_provider :: "string option"
  m_model_id :: "string option"
  m_text :: "string option"
  m_summary :: "string option"
  m_content :: "json option"
  m_system_prompt :: "string option"

record part_row =
  p_message_id :: string
  p_part_type :: string
  p_tool_name :: "string option"
  p_text :: "string option"
  p_content :: "json option"

record tool_execution_row =
  te_started_at :: "int option"
  te_completed_at :: "int option"
  te_session_id :: string
  te_correlation_id :: string
  te_tool_name :: string
  te_args :: "json option"
  te_result :: "json option"
  te_duration_ms :: "int option"
  te_success :: "bool option"
  te_error :: "string option"

record session_error_row =
  se_session_id :: string
  se_error_type :: "string option"
  se_error_message :: "string option"
  se_error_data :: "json option"

record compaction_row =
  c_session_id :: string
  c_context_tokens_before :: int
  c_cumulative_input_tokens :: int
  c_cumulative_output_tokens :: int
  c_cumulative_cache_read :: int
  c_cumulative_cache_write :: int
  c_cumulative_reasoning :: int
  c_cumulative_cost :: "rat option"

record db =
  sessions :: "string \<rightharpoonup> session_row"
  messages :: "string \<rightharpoonup> message_row"
  message_parts :: "string \<rightharpoonup> part_row"
  tool_executions :: "tool_execution_row list"
  session_errors :: "session_error_row list"
  compactions :: "compaction_row list"

text \<open>A session row as an insert that names only some columns leaves it: the column defaults.\<close>

definition default_session :: session_row where
  "default_session =
     \<lparr>s_project_id = None, s_parent_id = None, s_directory = None, s_title = None,
      s_status = None, s_model_provider = None, s_model_id = None, s_share_url = None,
      s_input_tokens = Some 0, s_output_tokens = Some 0, s_cache_read_tokens = Some 0,
      s_cache_write_tokens = Some 0, s_reasoning_tokens = Some 0, s_context_tokens = Some 0,
      s_peak_context_tokens = Some 0, s_estimated_cost = Some 0, s_compaction_count = Some 0\<rparr>"

text \<open>
  \<^verbatim>\<open>column + x\<close> is NULL on a NULL column; \<^verbatim>\<open>GREATEST\<close> ignores a NULL argument and
  is NULL when every argument is.
\<close>

definition sql_add :: "'a::plus option \<Rightarrow> 'a \<Rightarrow> 'a option" where
  "sql_add c x = (case c of None \<Rightarrow> None | Some v \<Rightarrow> Some (v + x))"

definition sql_greatest :: "int option \<Rightarrow> int \<Rightarrow> int option" where
  "sql_greatest c x = (case c of None \<Rightarrow> Some x | Some v \<Rightarrow> Some (max v x))"

definition sql_greatest2 :: "int option \<Rightarrow> int option \<Rightarrow> int option" where
  "sql_greatest2 a b = (case b of None \<Rightarrow> a | Some y \<Rightarrow> sql_greatest a y)"

text \<open>
  The column types that can refuse a value. \<^verbatim>\<open>INTEGER\<close> is a 32-bit signed integer:
  a bound value outside the range is refused when the statement is bound, whether or
  not a row matches, and a sum outside the range when the row is computed.
  \<^verbatim>\<open>NUMERIC(10, 6)\<close> rounds to six decimal places, half away from zero, and refuses
  a rounded value of 10000 or more in absolute value.
\<close>

definition int4 :: "int \<Rightarrow> bool" where
  "int4 n = (- 2147483648 \<le> n \<and> n \<le> 2147483647)"

definition int4_sum :: "int option \<Rightarrow> int \<Rightarrow> bool" where
  "int4_sum c x = (case c of None \<Rightarrow> True | Some v \<Rightarrow> int4 (v + x))"

definition numeric_10_6 :: "rat \<Rightarrow> rat option" where
  "numeric_10_6 x =
     (let y = sgn x * of_int \<lfloor>\<bar>x\<bar> * 1000000 + 1 / 2\<rfloor> / 1000000
      in if \<bar>y\<bar> < 10000 then Some y else None)"

text \<open>The messages of the errors the statements can raise.\<close>

definition fk_violation :: string where
  "fk_violation = ''violates foreign key constraint''"

definition value_out_of_range :: string where
  "value_out_of_range = ''is out of range for type integer''"

definition integer_out_of_range :: string where
  "integer_out_of_range = ''integer out of range''"

definition invalid_integer :: string where
  "invalid_integer = ''invalid input syntax for type integer''"

definition numeric_overflow :: string where
  "numeric_overflow = ''numeric field overflow''"

text \<open>
  What the handler binds as \<^verbatim>\<open>currentPriority\<close>: a number, or a member that the
  object literal \<^verbatim>\<open>statusPriority\<close> inherits from \<^verbatim>\<open>Object.prototype\<close> (a function or
  an object), which the driver sends as its string form.
\<close>

datatype priority = Number int | Inherited

text \<open>
  One constructor for each statement text of the handlers modelled here, with the
  values the handler binds to it, in the order of the source:
  \<^item> \<open>SessionCreatedUpsert id title parent project directory\<close>: the upsert of session.created;
  \<^item> \<open>SessionUpdate id title share_url\<close>: the update of session.updated;
  \<^item> \<open>SessionDeletedUpdate id\<close>: the update of session.deleted;
  \<^item> \<open>SessionErrorInsert session type message data\<close> and \<open>SessionStatusError session\<close>:
    the two statements of session.error;
  \<^item> \<open>CompactionInsert session context input output cacheRead cacheWrite reasoning cost\<close>
    and \<open>SessionCompactedUpdate session\<close>: the writes of session.compacted;
  \<^item> \<open>SessionTouchActive session\<close>: the session upsert of message.updated;
  \<^item> \<open>MessageUpsert id session role provider model text summary content system\<close>;
  \<^item> \<open>SessionAddTokens session input output reasoning cacheRead cacheWrite context provider model\<close>;
  \<^item> \<open>SessionAddCost session cost\<close>, \<open>MessageEnsure message session\<close>,
    \<open>SessionEnsure session\<close>: the side writes of message.part.updated;
  \<^item> \<open>PartInsert id message type tool text content\<close>: insert, on conflict do nothing;
  \<^item> \<open>PartUpdateText id tool text content\<close>: the update of a streaming part;
  \<^item> \<open>PartUpdateStatus id tool text content priority\<close>: the update behind the status gate;
  \<^item> \<open>MessageUpdateText message text\<close>;
  \<^item> \<open>SessionActivate session\<close>: the update of the chat.message hook;
  \<^item> \<open>ToolExecutionInsert correlation session tool args startedAt\<close>;
  \<^item> \<open>ToolExecutionComplete correlation result completedAt durationMs\<close>;
  \<^item> \<open>ToolExecutionInsertOrphan correlation session tool args result completedAt\<close>;
  \<^item> \<open>PartSetOutput part outputJson\<close>: the \<^verbatim>\<open>jsonb_set\<close> update of tool.execute.after.
\<close>

datatype stmt =
    SessionCreatedUpsert string "string option" "string option" "string option" "string option"
  | SessionUpdate string "string option" "string option"
  | SessionDeletedUpdate string
  | SessionErrorInsert string string "string option" "json option"
  | SessionStatusError string
  | CompactionInsert string int int int int int int rat
  | SessionCompactedUpdate string
  | SessionTouchActive string
  | MessageUpsert string string string "string option" "string option" "string option"
      "string option" "json option" "string option"
  | SessionAddTokens string int int int int int int "string option" "string option"
  | SessionAddCost string rat
  | MessageEnsure string string
  | SessionEnsure string
  | PartInsert string string string "string option" "string option" json
  | PartUpdateText string "string option" string json
  | PartUpdateStatus string "string option" "string option" json priority
  | MessageUpdateText string string
  | SessionActivate string
  | ToolExecutionInsert string string string "json option" int
  | ToolExecutionComplete string "string option" int int
  | ToolExecutionInsertOrphan string string string "json option" "string option" int
  | PartSetOutput string json

text \<open>\<^verbatim>\<open>UPDATE t SET ... WHERE id = k\<close>: the row with that key, when there is one.\<close>

definition update_row :: "('k \<rightharpoonup> 'r) \<Rightarrow> 'k \<Rightarrow> ('r \<Rightarrow> 'r) \<Rightarrow> ('k \<rightharpoonup> 'r)" where
  "update_row t k f = (case t k of None \<Rightarrow> t | Some r \<Rightarrow> t(k \<mapsto> f r))"

text \<open>
  \<^verbatim>\<open>text IS NULL OR LENGTH(text) < LENGTH(new)\<close>; the length of a text is the number
  of its characters.
\<close>

definition shorter_than :: "string option \<Rightarrow> string \<Rightarrow> bool" where
  "shorter_than stored new = (case stored of None \<Rightarrow> True | Some t \<Rightarrow> length t < length new)"

text \<open>
  The result of a tool is a string, bound to a \<^verbatim>\<open>JSONB\<close> column: the driver encodes
  it as a JSON string.
\<close>

definition complete_execution ::
  "string \<Rightarrow> string option \<Rightarrow> int \<Rightarrow> int \<Rightarrow> tool_execution_row \<Rightarrow> tool_execution_row" where
  "complete_execution cid result completedAt durationMs r =
     (if te_correlation_id r = cid
      then r\<lparr>te_result := map_option JStr result, te_completed_at := Some completedAt,
             te_duration_ms := Some durationMs, te_success := Some True\<rparr>
      else r)"

text \<open>
  A statement either raises (\<open>Inl\<close> the message) and changes nothing, or leaves the
  new tables. The foreign keys of the schema are checked where a row is inserted:
  \<^verbatim>\<open>messages.session_id\<close>, \<^verbatim>\<open>tool_executions.session_id\<close>,
  \<^verbatim>\<open>session_errors.session_id\<close> and \<^verbatim>\<open>compactions.session_id\<close> refer to
  \<^verbatim>\<open>sessions\<close>, \<^verbatim>\<open>message_parts.message_id\<close> to \<^verbatim>\<open>messages\<close>. An insert that
  meets a conflict inserts nothing and checks nothing. No statement here deletes a row
  or changes a key.
\<close>

fun exec_stmt :: "stmt \<Rightarrow> db \<Rightarrow> string + db" where
  "exec_stmt (SessionCreatedUpsert i title parent project directory) d =
     Inr (d\<lparr>sessions := (case sessions d i of
        None \<Rightarrow> (sessions d)(i \<mapsto> default_session
                   \<lparr>s_project_id := project, s_parent_id := parent, s_directory := directory,
                    s_title := title, s_status := Some ''created''\<rparr>)
      | Some r \<Rightarrow> (sessions d)(i \<mapsto> r
                   \<lparr>s_title := coalesce title (s_title r),
                    s_parent_id := coalesce parent (s_parent_id r),
                    s_project_id := coalesce project (s_project_id r),
                    s_directory := coalesce directory (s_directory r)\<rparr>))\<rparr>)"
| "exec_stmt (SessionUpdate i title share) d =
     Inr (d\<lparr>sessions := update_row (sessions d) i
        (\<lambda>r. r\<lparr>s_title := coalesce title (s_title r),
                s_share_url := coalesce share (s_share_url r)\<rparr>)\<rparr>)"
| "exec_stmt (SessionDeletedUpdate i) d =
     Inr (d\<lparr>sessions := update_row (sessions d) i (\<lambda>r. r\<lparr>s_status := Some ''deleted''\<rparr>)\<rparr>)"
| "exec_stmt (SessionErrorInsert sid etype emsg edata) d =
     (if sessions d sid = None then Inl fk_violation
      else Inr (d\<lparr>session_errors := session_errors d @
        [\<lparr>se_session_id = sid, se_error_type = Some etype, se_error_message = emsg,
          se_error_data = edata\<rparr>]\<rparr>))"
| "exec_stmt (SessionStatusError sid) d =
     Inr (d\<lparr>sessions := update_row (sessions d) sid (\<lambda>r. r\<lparr>s_status := Some ''error''\<rparr>)\<rparr>)"
| "exec_stmt (CompactionInsert sid contextBefore inp outp cacheRead cacheWrite reasoning cost) d =
     (if \<not> (int4 contextBefore \<and> int4 inp \<and> int4 outp \<and> int4 cacheRead \<and> int4 cacheWrite \<and>
             int4 reasoning)
      then Inl value_out_of_range
      else if numeric_10_6 cost = None then Inl numeric_overflow
      else if sessions d sid = None then Inl fk_violation
      else Inr (d\<lparr>compactions := compactions d @
        [\<lparr>c_session_id = sid, c_context_tokens_before = contextBefore,
          c_cumulative_input_tokens = inp, c_cumulative_output_tokens = outp,
          c_cumulative_cache_read = cacheRead, c_cumulative_cache_write = cacheWrite,
          c_cumulative_reasoning = reasoning, c_cumulative_cost = numeric_10_6 cost\<rparr>]\<rparr>))"
| "exec_stmt (SessionCompactedUpdate sid) d =
     (case sessions d sid of
        None \<Rightarrow> Inr d
      | Some r \<Rightarrow>
          if int4_sum (s_compaction_count r) 1
          then Inr (d\<lparr>sessions := (sessions d)(sid \<mapsto> r
                 \<lparr>s_status := Some ''compacted'',
                  s_peak_context_tokens :=
                    sql_greatest2 (s_peak_context_tokens r) (s_context_tokens r),
                  s_context_tokens := Some 0,
                  s_compaction_count := sql_add (s_compaction_count r) 1\<rparr>)\<rparr>)
          else Inl integer_out_of_range)"
| "exec_stmt (SessionTouchActive sid) d =
     Inr (d\<lparr>sessions := (case sessions d sid of
        None \<Rightarrow> (sessions d)(sid \<mapsto> default_session\<lparr>s_status := Some ''active''\<rparr>)
      | Some r \<Rightarrow> sessions d)\<rparr>)"
| "exec_stmt (MessageUpsert i sid role provider model txt summary content system) d =
     (case messages d i of
        None \<Rightarrow>
          if sessions d sid = None then Inl fk_violation
          else Inr (d\<lparr>messages := (messages d)(i \<mapsto>
                 \<lparr>m_session_id = sid, m_role = role, m_model_provider = provider,
                  m_model_id = model, m_text = txt, m_summary = summary,
                  m_content = content, m_system_prompt = system\<rparr>)\<rparr>)
      | Some r \<Rightarrow>
          Inr (d\<lparr>messages := (messages d)(i \<mapsto> r
                 \<lparr>m_role := role,
                  m_model_provider := coalesce provider (m_model_provider r),
                  m_model_id := coalesce model (m_model_id r),
                  m_text := coalesce txt (m_text r),
                  m_summary := coalesce summary (m_summary r),
                  m_content := coalesce content (m_content r),
                  m_system_prompt := coalesce system (m_system_prompt r)\<rparr>)\<rparr>))"
| "exec_stmt (SessionAddTokens sid inp outp reasoning cacheRead cacheWrite contextSize provider model) d =
     (if \<not> (int4 inp \<and> int4 outp \<and> int4 reasoning \<and> int4 cacheRead \<and> int4 cacheWrite \<and>
             int4 contextSize)
      then Inl value_out_of_range
      else
        (case sessions d sid of
           None \<Rightarrow> Inr d
         | Some r \<Rightarrow>
             if int4_sum (s_input_tokens r) inp \<and> int4_sum (s_output_tokens r) outp \<and>
                int4_sum (s_reasoning_tokens r) reasoning \<and>
                int4_sum (s_cache_read_tokens r) cacheRead \<and>
                int4_sum (s_cache_write_tokens r) cacheWrite
             then Inr (d\<lparr>sessions := (sessions d)(sid \<mapsto> r
                    \<lparr>s_input_tokens := sql_add (s_input_tokens r) inp,
                     s_output_tokens := sql_add (s_output_tokens r) outp,
                     s_reasoning_tokens := sql_add (s_reasoning_tokens r) reasoning,
                     s_cache_read_tokens := sql_add (s_cache_read_tokens r) cacheRead,
                     s_cache_write_tokens := sql_add (s_cache_write_tokens r) cacheWrite,
                     s_context_tokens := Some contextSize,
                     s_peak_context_tokens := sql_greatest (s_peak_context_tokens r) contextSize,
                     s_model_provider := coalesce provider (s_model_provider r),
                     s_model_id := coalesce model (s_model_id r)\<rparr>)\<rparr>)
             else Inl integer_out_of_range))"
| "exec_stmt (SessionAddCost sid cost) d =
     (case sessions d sid of
        None \<Rightarrow> Inr d
      | Some r \<Rightarrow>
          (case s_estimated_cost r of
             None \<Rightarrow> Inr d
           | Some c \<Rightarrow>
               (case numeric_10_6 (c + cost) of
                  None \<Rightarrow> Inl numeric_overflow
                | Some y \<Rightarrow>
                    Inr (d\<lparr>sessions := (sessions d)(sid \<mapsto> r\<lparr>s_estimated_cost := Some y\<rparr>)\<rparr>))))"
| "exec_stmt (MessageEnsure mid sid) d =
     (case messages d mid of
        None \<Rightarrow>
          if sessions d sid = None then Inl fk_violation
          else Inr (d\<lparr>messages := (messages d)(mid \<mapsto>
                 \<lparr>m_session_id = sid, m_role = ''assistant'', m_model_provider = None,
                  m_model_id = None, m_text = None, m_summary = None,
                  m_content = None, m_system_prompt = None\<rparr>)\<rparr>)
      | Some r \<Rightarrow> Inr d)"
| "exec_stmt (SessionEnsure sid) d =
     Inr (d\<lparr>sessions := (case sessions d sid of
        None \<Rightarrow> (sessions d)(sid \<mapsto> default_session\<lparr>s_status := Some ''active''\<rparr>)
      | Some r \<Rightarrow> sessions d)\<rparr>)"
| "exec_stmt (PartInsert i mid ptype tool txt content) d =
     (case message_parts d i of
        None \<Rightarrow>
          if messages d mid = None then Inl fk_violation
          else Inr (d\<lparr>message_parts := (message_parts d)(i \<mapsto>
                 \<lparr>p_message_id = mid, p_part_type = ptype, p_tool_name = tool,
                  p_text = txt, p_content = Some content\<rparr>)\<rparr>)
      | Some r \<Rightarrow> Inr d)"
| "exec_stmt (PartUpdateText i tool txt content) d =
     Inr (d\<lparr>message_parts := update_row (message_parts d) i
        (\<lambda>r. if shorter_than (p_text r) txt
              then r\<lparr>p_tool_name := coalesce tool (p_tool_name r), p_text := Some txt,
                     p_content := Some content\<rparr>
              else r)\<rparr>)"
| "exec_stmt (PartUpdateStatus i tool txt content priority) d =
     (case priority of
        Inherited \<Rightarrow> Inl invalid_integer
      | Number n \<Rightarrow>
          Inr (d\<lparr>message_parts := update_row (message_parts d) i
             (\<lambda>r. if n \<ge> stored_rank (p_content r)
                   then r\<lparr>p_tool_name := coalesce tool (p_tool_name r),
                          p_text := coalesce txt (p_text r), p_content := Some content\<rparr>
                   else r)\<rparr>))"
| "exec_stmt (MessageUpdateText mid txt) d =
     Inr (d\<lparr>messages := update_row (messages d) mid
        (\<lambda>r. if shorter_than (m_text r) txt then r\<lparr>m_text := Some txt\<rparr> else r)\<rparr>)"
| "exec_stmt (SessionActivate sid) d =
     Inr (d\<lparr>sessions := update_row (sessions d) sid (\<lambda>r. r\<lparr>s_status := Some ''active''\<rparr>)\<rparr>)"
| "exec_stmt (ToolExecutionInsert cid sid tool args startedAt) d =
     (if sessions d sid = None then Inl fk_violation
      else Inr (d\<lparr>tool_executions := tool_executions d @
        [\<lparr>te_started_at = Some startedAt, te_completed_at = None, te_session_id = sid,
          te_correlation_id = cid, te_tool_name = tool, te_args = args, te_result = None,
          te_duration_ms = None, te_success = None, te_error = None\<rparr>]\<rparr>))"
| "exec_stmt (ToolExecutionComplete cid result completedAt durationMs) d =
     (if \<not> int4 durationMs then Inl value_out_of_range
      else Inr (d\<lparr>tool_executions :=
        map (complete_execution cid result completedAt durationMs) (tool_executions d)\<rparr>))"
| "exec_stmt (ToolExecutionInsertOrphan cid sid tool args result completedAt) d =
     (if sessions d sid = None then Inl fk_violation
      else Inr (d\<lparr>tool_executions := tool_executions d @
        [\<lparr>te_started_at = None, te_completed_at = Some completedAt, te_session_id = sid,
          te_correlation_id = cid, te_tool_name = tool, te_args = args,
          te_result = map_option JStr result, te_duration_ms = None,
          te_success = Some True, te_error = None\<rparr>]\<rparr>))"
| "exec_stmt (PartSetOutput i outputJson) d =
     (case message_parts d i of
        None \<Rightarrow> Inr d
      | Some r \<Rightarrow>
          if jsonb_text_is_null (jsonb_field (p_content r) ''state'') ''output''
          then (case jsonb_set_state_output
                       (case p_content r of None \<Rightarrow> JObj [(''state'', JObj [])] | Some c \<Rightarrow> c)
                       outputJson of
                  Inl msg \<Rightarrow> Inl msg
                | Inr c \<Rightarrow> Inr (d\<lparr>message_parts := (message_parts d)(i \<mapsto> r\<lparr>p_content := Some c\<rparr>)\<rparr>))
          else Inr d)"

text \<open>
  The body of one write-behind task run alone: its statements are awaited in order,
  and the first that raises rejects the task, with the earlier ones already committed.
\<close>

fun run_statements :: "stmt list \<Rightarrow> db \<Rightarrow> unit race \<times> db" where
  "run_statements [] d = (Resolved (), d)"
| "run_statements (q # qs) d =
     (case exec_stmt q d of
        Inl msg \<Rightarrow> (Rejected (Error msg), d)
      | Inr d' \<Rightarrow> run_statements qs d')"

section \<open>Correlation state and the handlers of index.ts\<close>

record pending_execution =
  pe_correlationId :: string
  pe_sessionId :: string
  pe_toolName :: string
  pe_args :: json
  pe_startedAt :: int
  pe_partId :: "string option"

record pending_user_message =
  pu_parts :: "TextPart list"
  pu_systemPrompt :: "string option"
  pu_timestamp :: int

text \<open>
  What has been handed to the driver and has not settled yet: a write-behind task with
  the statements it still has to run, or the read that session.compacted awaits.
\<close>

datatype task = Write "stmt list" | CompactionRead string

text \<open>
  The module-level maps of index.ts, the module state of db.ts, the Store, and the
  tasks in flight in the order they were issued. The inner maps of
  \<^verbatim>\<open>tokensCountedBySession\<close> are association lists in insertion order, so that
  \<^verbatim>\<open>size === 0\<close> can be read off.
\<close>

record world =
  pendingExecutions :: "string \<rightharpoonup> pending_execution"
  callIdToPartId :: "string \<rightharpoonup> string"
  pendingUserMessages :: "string \<rightharpoonup> pending_user_message"
  tokensCountedBySession :: "string \<rightharpoonup> (string \<times> int) list"
  callIdTimestamps :: "string \<rightharpoonup> int"
  gate :: health
  store :: db
  inflight :: "task list"

text \<open>
  One call \<^verbatim>\<open>fireAndForget(async () => { await sql`...`; ... })\<close> whose task runs to
  its end before anything else reaches the Store: the gate is read, and the statements
  run in order. This is what a handler that issues a single task does when no other
  task is in flight; the handlers of \<^verbatim>\<open>session.created\<close>, \<^verbatim>\<open>session.updated\<close> and
  \<^verbatim>\<open>session.error\<close> are stated with it. \<open>now\<close> is what the clock reads while the
  handler runs.
\<close>

definition dispatch :: "int \<Rightarrow> stmt list \<Rightarrow> world \<Rightarrow> world" where
  "dispatch now task w =
     (let hs = fireAndForget (run_statements task) now now (gate w, store w)
      in w\<lparr>gate := fst hs, store := snd hs\<rparr>)"

text \<open>
  In general \<^verbatim>\<open>fireAndForget\<close> returns as soon as the gate is read and the first
  statement is handed to the driver: nothing awaits the promise, and the pool of 30
  connections runs the statements of different tasks in any order. \<open>issue\<close> is what
  the handler itself does: a task the gate admits joins the tasks in flight, a task it
  refuses is dropped.
\<close>

definition issue :: "int \<Rightarrow> stmt list \<Rightarrow> world \<Rightarrow> world" where
  "issue now task w =
     (if isDatabaseHealthy (gate w) now then w\<lparr>inflight := inflight w @ [Write task]\<rparr> else w)"

definition session_created_task :: "SessionInfo \<Rightarrow> stmt list" where
  "session_created_task info =
     [SessionCreatedUpsert (si_id info) (or_null (si_title info)) (or_null (si_parentID info))
        (or_null (si_projectID info)) (or_null (si_directory info))]"

definition session_updated_task :: "SessionInfo \<Rightarrow> stmt list" where
  "session_updated_task info =
     [SessionUpdate (si_id info) (or_null (si_title info))
        (or_null (case si_share info of None \<Rightarrow> None | Some url \<Rightarrow> url))]"

definition on_session_created :: "int \<Rightarrow> SessionInfo \<Rightarrow> world \<Rightarrow> world" where
  "on_session_created now info w =
     dispatch now
       [SessionCreatedUpsert (si_id info) (or_null (si_title info)) (or_null (si_parentID info))
          (or_null (si_projectID info)) (or_null (si_directory info))] w"

definition on_session_updated :: "int \<Rightarrow> SessionInfo \<Rightarrow> world \<Rightarrow> world" where
  "on_session_updated now info w =
     dispatch now
       [SessionUpdate (si_id info) (or_null (si_title info))
          (or_null (case si_share info of None \<Rightarrow> None | Some url \<Rightarrow> url))] w"

text \<open>
  session.deleted: the update is issued, and the session's entry of
  \<^verbatim>\<open>tokensCountedBySession\<close> is deleted at once.
\<close>

definition on_session_deleted :: "int \<Rightarrow> SessionInfo \<Rightarrow> world \<Rightarrow> world" where
  "on_session_deleted now info w =
     (let w1 = issue now [SessionDeletedUpdate (si_id info)] w
      in w1\<lparr>tokensCountedBySession := (tokensCountedBySession w1)(si_id info := None)\<rparr>)"

definition nullish_or :: "int option \<Rightarrow> int \<Rightarrow> int" where
  "nullish_or x d = (case x of None \<Rightarrow> d | Some v \<Rightarrow> v)"

text \<open>The statements session.error binds for a session id that is present.\<close>

definition session_error_task :: "string \<Rightarrow> ErrorInfo option \<Rightarrow> stmt list" where
  "session_error_task sid err =
     [SessionErrorInsert sid
        (case or_null (case err of None \<Rightarrow> None | Some e \<Rightarrow> er_name e) of
           None \<Rightarrow> ''unknown'' | Some n \<Rightarrow> n)
        (or_null (case err of None \<Rightarrow> None
                  | Some e \<Rightarrow> (case er_data e of None \<Rightarrow> None | Some m \<Rightarrow> m)))
        (map_option error_json err),
      SessionStatusError sid]"

definition on_session_error :: "int \<Rightarrow> string option \<Rightarrow> ErrorInfo option \<Rightarrow> world \<Rightarrow> world" where
  "on_session_error now sessionID err w =
     (case or_null sessionID of
        None \<Rightarrow> w
      | Some sid \<Rightarrow> dispatch now (session_error_task sid err) w)"

text \<open>
  session.compacted awaits a read of the session row. When the gate refuses the read,
  \<^verbatim>\<open>safeQuery\<close> gives undefined and the handler goes on at once: the update is
  refused by the same gate, and the session's entry of \<^verbatim>\<open>tokensCountedBySession\<close> is
  deleted. Otherwise the read is in flight, and the rest of the handler runs when it
  settles: with the row it returned, the insert into \<^verbatim>\<open>compactions\<close> is issued, then
  the update, and the entry is deleted. \<^verbatim>\<open>x || 0\<close> turns NULL into 0.
\<close>

definition on_session_compacted :: "int \<Rightarrow> string \<Rightarrow> world \<Rightarrow> world" where
  "on_session_compacted now sid w =
     (if isDatabaseHealthy (gate w) now
      then w\<lparr>inflight := inflight w @ [CompactionRead sid]\<rparr>
      else w\<lparr>tokensCountedBySession := (tokensCountedBySession w)(sid := None)\<rparr>)"

definition compaction_task :: "string \<Rightarrow> session_row \<Rightarrow> stmt list" where
  "compaction_task sid r =
     [CompactionInsert sid
        (nullish_or (s_context_tokens r) 0) (nullish_or (s_input_tokens r) 0)
        (nullish_or (s_output_tokens r) 0) (nullish_or (s_cache_read_tokens r) 0)
        (nullish_or (s_cache_write_tokens r) 0) (nullish_or (s_reasoning_tokens r) 0)
        (case s_estimated_cost r of None \<Rightarrow> 0 | Some c \<Rightarrow> c)]"

definition after_compaction_read :: "int \<Rightarrow> string \<Rightarrow> world \<Rightarrow> world" where
  "after_compaction_read now sid w =
     (let w1 = (case sessions (store w) sid of
                  None \<Rightarrow> w
                | Some r \<Rightarrow> issue now (compaction_task sid r) w);
          w2 = issue now [SessionCompactedUpdate sid] w1
      in w2\<lparr>tokensCountedBySession := (tokensCountedBySession w2)(sid := None)\<rparr>)"

fun join_lines :: "string list \<Rightarrow> string" where
  "join_lines [] = []"
| "join_lines [x] = x"
| "join_lines (x # y # zs) = x @ [CHR 0x0A] @ join_lines (y # zs)"

definition text_of_parts :: "TextPart list \<Rightarrow> string option" where
  "text_of_parts ps =
     or_null (Some (join_lines
       (List.map_filter (\<lambda>p. if tp_type p = ''text'' then or_null (tp_text p) else None) ps)))"

text \<open>
  message.updated. The message id is marked in \<^verbatim>\<open>tokensCountedBySession\<close> before the
  counter update is handed to \<^verbatim>\<open>fireAndForget\<close>, whether or not the gate admits it.
\<close>

definition on_message_updated :: "int \<Rightarrow> MessageInfo \<Rightarrow> world \<Rightarrow> world" where
  "on_message_updated now info w =
     (let sid = mi_sessionID info;
          w1 = issue now [SessionTouchActive sid] w;
          pending = (if mi_role info = ''user'' then pendingUserMessages w1 sid else None);
          messageContent =
            (case pending of
               None \<Rightarrow> mi_parts info
             | Some pu \<Rightarrow> (case mi_parts info of None \<Rightarrow> Some (pu_parts pu) | Some ps \<Rightarrow> Some ps));
          textContent =
            (case pending of
               None \<Rightarrow> None
             | Some pu \<Rightarrow> (case mi_parts info of None \<Rightarrow> text_of_parts (pu_parts pu) | Some ps \<Rightarrow> None));
          systemPrompt =
            (case pending of
               None \<Rightarrow> or_null (mi_system info)
             | Some pu \<Rightarrow> coalesce (or_null (mi_system info)) (or_null (pu_systemPrompt pu)));
          w2 = (case pending of
                  None \<Rightarrow> w1
                | Some pu \<Rightarrow> w1\<lparr>pendingUserMessages := (pendingUserMessages w1)(sid := None)\<rparr>);
          modelProvider =
            coalesce (or_null (mi_providerID info))
              (or_null (case mi_model info of None \<Rightarrow> None | Some m \<Rightarrow> fst m));
          modelId =
            coalesce (or_null (mi_modelID info))
              (or_null (case mi_model info of None \<Rightarrow> None | Some m \<Rightarrow> snd m));
          w3 = issue now
                 [MessageUpsert (mi_id info) sid (mi_role info) modelProvider modelId textContent
                    (or_null (case mi_summary info of None \<Rightarrow> None | Some t \<Rightarrow> t))
                    (map_option parts_json messageContent) systemPrompt] w2;
          sessionTokens = (case tokensCountedBySession w3 sid of None \<Rightarrow> [] | Some m \<Rightarrow> m)
      in case mi_tokens info of
           None \<Rightarrow> w3
         | Some t \<Rightarrow>
             if mi_role info = ''assistant'' \<and> map_of sessionTokens (mi_id info) = None
             then
               (let inputTokens = nullish_or (tk_input t) 0;
                    outputTokens = nullish_or (tk_output t) 0;
                    reasoningTokens = nullish_or (tk_reasoning t) 0;
                    cacheRead = nullish_or (case tk_cache t of None \<Rightarrow> None | Some c \<Rightarrow> fst c) 0;
                    cacheWrite = nullish_or (case tk_cache t of None \<Rightarrow> None | Some c \<Rightarrow> snd c) 0
                in if inputTokens > 0 \<or> outputTokens > 0
                   then issue now
                          [SessionAddTokens sid inputTokens outputTokens reasoningTokens cacheRead
                             cacheWrite (inputTokens + cacheRead) modelProvider modelId]
                          (w3\<lparr>tokensCountedBySession :=
                               (tokensCountedBySession w3)
                                 (sid \<mapsto> sessionTokens @ [(mi_id info, now)])\<rparr>)
                   else w3)
             else w3)"

text \<open>
  The object literal \<^verbatim>\<open>statusPriority\<close>, read with any string as the key: its four
  own keys, the members every object inherits from \<^verbatim>\<open>Object.prototype\<close>, and
  undefined for every other key.
\<close>

definition object_prototype_keys :: "string list" where
  "object_prototype_keys =
     [''constructor'', ''hasOwnProperty'', ''isPrototypeOf'', ''propertyIsEnumerable'',
      ''toLocaleString'', ''toString'', ''valueOf'', ''__proto__'', ''__defineGetter__'',
      ''__defineSetter__'', ''__lookupGetter__'', ''__lookupSetter__'']"

definition statusPriority :: "string \<Rightarrow> priority option" where
  "statusPriority s =
     (if s = ''pending'' then Some (Number 1)
      else if s = ''running'' then Some (Number 2)
      else if s = ''completed'' then Some (Number 3)
      else if s = ''error'' then Some (Number 3)
      else if s \<in> set object_prototype_keys then Some Inherited
      else None)"

text \<open>
  \<^verbatim>\<open>currentStatus = part.state?.status || "pending"\<close> and
  \<^verbatim>\<open>currentPriority = statusPriority[currentStatus] || 0\<close>: an inherited member is
  truthy and is kept.
\<close>

definition currentStatus :: "PartInfo \<Rightarrow> string" where
  "currentStatus part =
     (case or_null (case pi_state part of None \<Rightarrow> None | Some st \<Rightarrow> ps_status st) of
        None \<Rightarrow> ''pending''
      | Some s \<Rightarrow> s)"

definition currentPriority :: "PartInfo \<Rightarrow> priority" where
  "currentPriority part =
     (case statusPriority (currentStatus part) of
        None \<Rightarrow> Number 0
      | Some Inherited \<Rightarrow> Inherited
      | Some (Number n) \<Rightarrow> if n = 0 then Number 0 else Number n)"

definition isStreamingTextPart :: "PartInfo \<Rightarrow> bool" where
  "isStreamingTextPart part = (pi_type part = ''text'' \<or> pi_type part = ''reasoning'')"

definition part_toolName :: "PartInfo \<Rightarrow> string option" where
  "part_toolName part = (if pi_type part = ''tool'' then or_null (pi_tool part) else None)"

text \<open>The task of message.part.updated that writes the part row.\<close>

definition part_task :: "PartInfo \<Rightarrow> stmt list" where
  "part_task part =
     (let ins = PartInsert (pi_id part) (pi_messageID part) (pi_type part) (part_toolName part)
                  (or_null (pi_text part)) (part_json part)
      in if isStreamingTextPart part
         then (case or_null (pi_text part) of
                 None \<Rightarrow> [ins]
               | Some t \<Rightarrow> [ins, PartUpdateText (pi_id part) (part_toolName part) t (part_json part)])
         else [ins, PartUpdateStatus (pi_id part) (part_toolName part) (or_null (pi_text part))
                      (part_json part) (currentPriority part)])"

definition track_call :: "int \<Rightarrow> PartInfo \<Rightarrow> world \<Rightarrow> world" where
  "track_call now part w =
     (case (if pi_type part = ''tool'' then or_null (pi_callID part) else None) of
        None \<Rightarrow> w
      | Some c \<Rightarrow>
          w\<lparr>callIdToPartId := (callIdToPartId w)(c \<mapsto> pi_id part),
            callIdTimestamps := (callIdTimestamps w)(c \<mapsto> now),
            pendingExecutions :=
              (case pendingExecutions w c of
                 None \<Rightarrow> pendingExecutions w
               | Some pe \<Rightarrow> (pendingExecutions w)(c \<mapsto> pe\<lparr>pe_partId := Some (pi_id part)\<rparr>))\<rparr>)"

text \<open>
  message.part.updated issues up to five tasks, none of them awaited: the cost update,
  the insert of the message row, the insert of the session row, the task that writes
  the part, and the update of the message text.
\<close>

definition on_message_part_updated :: "int \<Rightarrow> PartInfo \<Rightarrow> world \<Rightarrow> world" where
  "on_message_part_updated now part w =
     (let w1 = track_call now part w;
          w2 = (case (if pi_type part = ''step-finish'' then pi_cost part else None) of
                  None \<Rightarrow> w1
                | Some cost \<Rightarrow> issue now [SessionAddCost (pi_sessionID part) cost] w1);
          w3 = issue now [MessageEnsure (pi_messageID part) (pi_sessionID part)] w2;
          w4 = issue now [SessionEnsure (pi_sessionID part)] w3;
          w5 = issue now (part_task part) w4
      in case (if pi_type part = ''text'' then or_null (pi_text part) else None) of
           None \<Rightarrow> w5
         | Some t \<Rightarrow> issue now [MessageUpdateText (pi_messageID part) t] w5)"

text \<open>
  The chat.message hook: \<open>parts\<close> is \<^verbatim>\<open>output.parts\<close> and \<open>system\<close> the system prompt
  of \<^verbatim>\<open>output.message\<close>.
\<close>

definition on_chat_message ::
  "int \<Rightarrow> string \<Rightarrow> TextPart list option \<Rightarrow> string option \<Rightarrow> world \<Rightarrow> world" where
  "on_chat_message now sessionID parts system w =
     (let w1 = issue now [SessionActivate sessionID] w
      in case (case parts of None \<Rightarrow> None | Some ps \<Rightarrow> if ps = [] then None else Some ps) of
           Some ps \<Rightarrow>
             w1\<lparr>pendingUserMessages := (pendingUserMessages w1)(sessionID \<mapsto>
                  \<lparr>pu_parts = ps, pu_systemPrompt = system, pu_timestamp = now\<rparr>)\<rparr>
         | None \<Rightarrow>
             (case or_null system of
                None \<Rightarrow> w1
              | Some s \<Rightarrow>
                  w1\<lparr>pendingUserMessages := (pendingUserMessages w1)(sessionID \<mapsto>
                       \<lparr>pu_parts = [], pu_systemPrompt = Some s, pu_timestamp = now\<rparr>)\<rparr>))"

text \<open>\<^verbatim>\<open>x ?? null\<close> on a JSON value: undefined and null both bind SQL NULL.\<close>

definition nullish_json :: "json option \<Rightarrow> json option" where
  "nullish_json x = (case x of Some JNull \<Rightarrow> None | other \<Rightarrow> other)"

text \<open>
  The tool hooks. \<open>now\<close> is the \<^verbatim>\<open>new Date()\<close> of the hook and \<open>cid\<close> what
  \<^verbatim>\<open>generateCorrelationId()\<close> returns to it (a clock reading and a random suffix).
\<close>

definition on_tool_execute_before ::
  "int \<Rightarrow> string \<Rightarrow> string \<Rightarrow> string \<Rightarrow> string \<Rightarrow> json option \<Rightarrow> world \<Rightarrow> world" where
  "on_tool_execute_before now cid tool sessionID callID args w =
     issue now [ToolExecutionInsert cid sessionID tool (nullish_json args) now]
       (w\<lparr>pendingExecutions := (pendingExecutions w)(callID \<mapsto>
            \<lparr>pe_correlationId = cid, pe_sessionId = sessionID, pe_toolName = tool,
             pe_args = (case args of None \<Rightarrow> JObj []
                        | Some a \<Rightarrow> if js_truthy a then a else JObj []),
             pe_startedAt = now, pe_partId = None\<rparr>)\<rparr>)"

definition linked_part :: "world \<Rightarrow> string \<Rightarrow> string option" where
  "linked_part w callID =
     coalesce
       (or_null (case pendingExecutions w callID of None \<Rightarrow> None | Some pe \<Rightarrow> pe_partId pe))
       (or_null (callIdToPartId w callID))"

text \<open>
  The annotation of the linked part. \<^verbatim>\<open>outputJson = JSON.stringify(output.output)\<close>
  is a string, and the driver encodes a string bound to a \<^verbatim>\<open>jsonb\<close> parameter as a
  JSON string once more: what reaches \<^verbatim>\<open>jsonb_set\<close> is the JSON string whose text is
  the quoted output.
\<close>

definition annotate_part :: "string option \<Rightarrow> string option \<Rightarrow> stmt list" where
  "annotate_part partId out =
     (case partId of
        None \<Rightarrow> []
      | Some p \<Rightarrow>
          (case or_null out of None \<Rightarrow> [] | Some t \<Rightarrow> [PartSetOutput p (JStr (json_quote t))]))"

definition on_tool_execute_after ::
  "int \<Rightarrow> string \<Rightarrow> string \<Rightarrow> string \<Rightarrow> string \<Rightarrow> string option \<Rightarrow> json option \<Rightarrow> world \<Rightarrow> world" where
  "on_tool_execute_after now cid tool sessionID callID out metadata w =
     (let partId = linked_part w callID;
          w1 = (case pendingExecutions w callID of
                  Some pe \<Rightarrow>
                    (issue now
                       (ToolExecutionComplete (pe_correlationId pe) out now (now - pe_startedAt pe)
                          # annotate_part partId out) w)
                    \<lparr>pendingExecutions := (pendingExecutions w)(callID := None)\<rparr>
                | None \<Rightarrow>
                    issue now
                      (ToolExecutionInsertOrphan cid sessionID tool (nullish_json metadata) out now
                         # annotate_part partId out) w)
      in w1\<lparr>callIdToPartId := (callIdToPartId w1)(callID := None),
            callIdTimestamps := (callIdTimestamps w1)(callID := None)\<rparr>)"

text \<open>
  \<^verbatim>\<open>cleanupStaleMaps\<close>, which a timer calls every 60 seconds: every entry older than
  15 minutes leaves its map, and a session whose inner map is empty afterwards leaves
  \<^verbatim>\<open>tokensCountedBySession\<close>.
\<close>

definition STALE_ENTRY_TIMEOUT_MS :: int where
  "STALE_ENTRY_TIMEOUT_MS = 15 * 60 * 1000"

definition cleanupStaleMaps :: "int \<Rightarrow> world \<Rightarrow> world" where
  "cleanupStaleMaps now w =
     w\<lparr>pendingExecutions :=
         (\<lambda>k. case pendingExecutions w k of
                None \<Rightarrow> None
              | Some pe \<Rightarrow>
                  if now - pe_startedAt pe > STALE_ENTRY_TIMEOUT_MS then None else Some pe),
       pendingUserMessages :=
         (\<lambda>k. case pendingUserMessages w k of
                None \<Rightarrow> None
              | Some pu \<Rightarrow>
                  if now - pu_timestamp pu > STALE_ENTRY_TIMEOUT_MS then None else Some pu),
       callIdToPartId :=
         (\<lambda>k. case callIdTimestamps w k of
                None \<Rightarrow> callIdToPartId w k
              | Some ts \<Rightarrow>
                  if now - ts > STALE_ENTRY_TIMEOUT_MS then None else callIdToPartId w k),
       callIdTimestamps :=
         (\<lambda>k. case callIdTimestamps w k of
                None \<Rightarrow> None
              | Some ts \<Rightarrow> if now - ts > STALE_ENTRY_TIMEOUT_MS then None else Some ts),
       tokensCountedBySession :=
         (\<lambda>k. case tokensCountedBySession w k of
                None \<Rightarrow> None
              | Some m \<Rightarrow>
                  (let kept = filter (\<lambda>e. \<not> now - snd e > STALE_ENTRY_TIMEOUT_MS) m
                   in if kept = [] then None else Some kept))\<rparr>"

section \<open>The Store at work: one statement at a time\<close>

text \<open>
  \<open>store_step n t w\<close>: the database runs the next statement of the \<open>n\<close>-th task in
  flight, at clock reading \<open>t\<close>. A statement that raises rejects its task, which
  \<^verbatim>\<open>safeQuery\<close> counts as a failure when the message names the connection; a task
  whose last statement has run resolves and resets the failure count. Each statement
  touches one row and is atomic; which task moves next is not determined by the
  program. The connection is taken to hold and no statement to outlast the 10 second
  timer of \<^verbatim>\<open>safeQuery\<close>.
\<close>

definition remove_nth :: "nat \<Rightarrow> 'a list \<Rightarrow> 'a list" where
  "remove_nth n xs = take n xs @ drop (Suc n) xs"

definition settle :: "nat \<Rightarrow> world \<Rightarrow> world" where
  "settle n w = w\<lparr>inflight := remove_nth n (inflight w), gate := markHealthy (gate w)\<rparr>"

fun advance :: "nat \<Rightarrow> int \<Rightarrow> task \<Rightarrow> world \<Rightarrow> world" where
  "advance n t (Write []) w = settle n w"
| "advance n t (Write (q # qs)) w =
     (case exec_stmt q (store w) of
        Inl msg \<Rightarrow>
          w\<lparr>inflight := remove_nth n (inflight w),
            gate := note_failure (Error msg) t (gate w)\<rparr>
      | Inr d \<Rightarrow>
          if qs = [] then settle n (w\<lparr>store := d\<rparr>)
          else w\<lparr>inflight := (inflight w)[n := Write qs], store := d\<rparr>)"
| "advance n t (CompactionRead sid) w = after_compaction_read t sid (settle n w)"

definition store_step :: "nat \<Rightarrow> int \<Rightarrow> world \<Rightarrow> world" where
  "store_step n t w = (if n < length (inflight w) then advance n t (inflight w ! n) w else w)"

section \<open>Runs of the plugin\<close>

text \<open>
  What can happen to the plugin, each with the clock reading at which it happens: an
  event or hook of the host, the cleanup timer, or the database running one statement.
  The handlers of \<^verbatim>\<open>session.idle\<close>, \<^verbatim>\<open>message.removed\<close>,
  \<^verbatim>\<open>message.part.removed\<close> and \<^verbatim>\<open>command.executed\<close> are not modelled: no run below
  contains these events.
\<close>

datatype action =
    SessionCreated int SessionInfo
  | SessionUpdated int SessionInfo
  | SessionDeleted int SessionInfo
  | SessionError int "string option" "ErrorInfo option"
  | SessionCompacted int string
  | MessageUpdated int MessageInfo
  | PartUpdated int PartInfo
  | ChatMessage int string "TextPart list option" "string option"
  | ToolBefore int string string string string "json option"
  | ToolAfter int string string string string "string option" "json option"
  | Sweep int
  | Store nat int

fun act :: "action \<Rightarrow> world \<Rightarrow> world" where
  "act (SessionCreated now info) w = issue now (session_created_task info) w"
| "act (SessionUpdated now info) w = issue now (session_updated_task info) w"
| "act (SessionDeleted now info) w = on_session_deleted now info w"
| "act (SessionError now sessionID err) w =
     (case or_null sessionID of
        None \<Rightarrow> w
      | Some sid \<Rightarrow> issue now (session_error_task sid err) w)"
| "act (SessionCompacted now sid) w = on_session_compacted now sid w"
| "act (MessageUpdated now info) w = on_message_updated now info w"
| "act (PartUpdated now part) w = on_message_part_updated now part w"
| "act (ChatMessage now sessionID parts system) w = on_chat_message now sessionID parts system w"
| "act (ToolBefore now cid tool sessionID callID args) w =
     on_tool_execute_before now cid tool sessionID callID args w"
| "act (ToolAfter now cid tool sessionID callID out metadata) w =
     on_tool_execute_after now cid tool sessionID callID out metadata w"
| "act (Sweep now) w = cleanupStaleMaps now w"
| "act (Store n t) w = store_step n t w"

fun run :: "action list \<Rightarrow> world \<Rightarrow> world" where
  "run [] w = w"
| "run (a # as) w = run as (act a w)"

text \<open>
  What goes on between two events: the database runs statements, and the cleanup
  timer fires, here not later than \<open>T\<close>.
\<close>

fun background :: "int \<Rightarrow> action \<Rightarrow> bool" where
  "background T (Store n t) = True"
| "background T (Sweep s) = (s \<le> T)"
| "background T other = False"

text \<open>
  The plugin as the modules load it, against a Store with empty tables: every map is
  a fresh \<^verbatim>\<open>new Map()\<close>, no failure has been counted and nothing is in flight.
\<close>

definition empty_db :: db where
  "empty_db = \<lparr>sessions = Map.empty, messages = Map.empty, message_parts = Map.empty,
     tool_executions = [], session_errors = [], compactions = []\<rparr>"

definition initial_world :: world where
  "initial_world = \<lparr>pendingExecutions = Map.empty, callIdToPartId = Map.empty,
     pendingUserMessages = Map.empty, tokensCountedBySession = Map.empty,
     callIdTimestamps = Map.empty, gate = initial_health, store = empty_db, inflight = []\<rparr>"

section \<open>Invariants of runs\<close>

text \<open>
  The vocabulary of the proofs below. A task is made of statements that all satisfy
  \<open>P\<close>; the statements satisfying \<open>P\<close> keep a property \<open>S\<close> of the Store; a world is
  \<open>safe\<close> when \<open>S\<close> holds and only such tasks are in flight.
\<close>

fun task_all :: "(stmt \<Rightarrow> bool) \<Rightarrow> task \<Rightarrow> bool" where
  "task_all P (Write qs) = list_all P qs"
| "task_all P (CompactionRead sid) = False"

definition keeps :: "(stmt \<Rightarrow> bool) \<Rightarrow> (db \<Rightarrow> bool) \<Rightarrow> bool" where
  "keeps P S = (\<forall>q d d'. P q \<longrightarrow> S d \<longrightarrow> exec_stmt q d = Inr d' \<longrightarrow> S d')"

definition safe :: "(stmt \<Rightarrow> bool) \<Rightarrow> (db \<Rightarrow> bool) \<Rightarrow> world \<Rightarrow> bool" where
  "safe P S w =
     (S (store w) \<and> list_all (task_all P) (inflight w))"

text \<open>
  A two-statement task \<open>[I, U]\<close> is still whole in flight, or its second statement is
  and \<open>R\<close> holds, or \<open>T\<close> holds.
\<close>

definition pending_or :: "stmt \<Rightarrow> stmt \<Rightarrow> (db \<Rightarrow> bool) \<Rightarrow> (db \<Rightarrow> bool) \<Rightarrow> world \<Rightarrow> bool" where
  "pending_or I U R T w =
     (Write [I, U] \<in> set (inflight w) \<or>
      (Write [U] \<in> set (inflight w) \<and> R (store w)) \<or>
      T (store w))"

text \<open>
  The one-statement task \<open>[A]\<close> is in flight once and \<open>P0\<close> holds, or it is not in
  flight and \<open>P1\<close> holds; every other task in flight is made of statements
  satisfying \<open>P\<close>.
\<close>

definition once :: "(stmt \<Rightarrow> bool) \<Rightarrow> stmt \<Rightarrow> (db \<Rightarrow> bool) \<Rightarrow> (db \<Rightarrow> bool) \<Rightarrow> world \<Rightarrow> bool" where
  "once P A P0 P1 w =
     (list_all (\<lambda>x. x = Write [A] \<or> task_all P x) (inflight w) \<and>
      ((count_list (inflight w) (Write [A]) = 1 \<and> P0 (store w)) \<or>
       (count_list (inflight w) (Write [A]) = 0 \<and> P1 (store w))))"

text \<open>The tasks message.part.updated issues when the gate admits, in the order of the source.\<close>

definition part_tasks :: "PartInfo \<Rightarrow> stmt list list" where
  "part_tasks part =
     (case (if pi_type part = ''step-finish'' then pi_cost part else None) of
        None \<Rightarrow> []
      | Some cost \<Rightarrow> [[SessionAddCost (pi_sessionID part) cost]]) @
     [[MessageEnsure (pi_messageID part) (pi_sessionID part)],
      [SessionEnsure (pi_sessionID part)],
      part_task part] @
     (case (if pi_type part = ''text'' then or_null (pi_text part) else None) of
        None \<Rightarrow> []
      | Some t \<Rightarrow> [[MessageUpdateText (pi_messageID part) t]])"

text \<open>\<^verbatim>\<open>tokensCountedBySession.get(sid)?.has(mid)\<close>: the message id is marked as counted.\<close>

definition counted :: "world \<Rightarrow> string \<Rightarrow> string \<Rightarrow> bool" where
  "counted w sid mid =
     (case tokensCountedBySession w sid of None \<Rightarrow> False | Some m \<Rightarrow> map_of m mid \<noteq> None)"

section \<open>A small run for the examples\<close>

text \<open>
  The session \<^verbatim>\<open>s1\<close> is created and an assistant message \<^verbatim>\<open>m1\<close> without token
  counts is recorded; every task has settled.
\<close>

definition sample_session :: SessionInfo where
  "sample_session = \<lparr>si_id = ''s1'', si_title = Some ''T'', si_parentID = None,
     si_projectID = None, si_directory = None, si_share = None\<rparr>"

definition sample_message :: MessageInfo where
  "sample_message = \<lparr>mi_id = ''m1'', mi_sessionID = ''s1'', mi_role = ''assistant'',
     mi_model = None, mi_providerID = None, mi_modelID = None, mi_parts = None,
     mi_summary = None, mi_system = None, mi_tokens = None\<rparr>"

definition seeded_world :: world where
  "seeded_world =
     run [SessionCreated 1 sample_session, Store 0 2,
          MessageUpdated 3 sample_message, Store 0 4, Store 0 5] initial_world"

section \<open>Properties of the health gate\<close>

text \<open>
  Claim C7. For every failure count \<open>f\<close> and every time \<open>elapsed\<close> since the last
  failure, the gate admits an operation exactly when \<open>f = 0\<close> or
  \<open>elapsed \<ge> min (1000 * 2 ^ (f - 1)) 60000\<close>. When the gate does not admit,
  \<open>safeQuery\<close> settles with undefined whatever the operation is, and the store and the
  failure state are as before: the operation was not invoked. When the gate admits and
  the operation resolves, its value is returned and the failure count is reset to zero.
\<close>

theorem C7_health_gate:
  "(isDatabaseHealthy \<lparr>consecutiveFailures = f, lastFailureTime = t0\<rparr> (t0 + elapsed) =
      (f = 0 \<or> elapsed \<ge> min (1000 * 2 ^ (f - 1)) 60000)) \<and>
   (\<not> isDatabaseHealthy h now \<longrightarrow>
      safeQuery queryFn now failedAt (h, s) = (Fulfilled None, h, s)) \<and>
   (isDatabaseHealthy h now \<and> fst (queryFn s) = Resolved v \<longrightarrow>
      safeQuery queryFn now failedAt (h, s) =
        (Fulfilled (Some v), h\<lparr>consecutiveFailures := 0, lastFailureTime := 0\<rparr>, snd (queryFn s)))"
  by (simp add: isDatabaseHealthy_def backoffMs_def BASE_BACKOFF_MS_def MAX_BACKOFF_MS_def
      safeQuery_def Let_def markHealthy_def)

text \<open>
  After three failures the backoff is 4000 ms, after nine it is capped at 60000 ms; an
  operation that would resolve and change the store is skipped one millisecond early
  and run at the threshold.
\<close>

theorem C7_health_gate_witness:
  "\<not> isDatabaseHealthy \<lparr>consecutiveFailures = 3, lastFailureTime = 500\<rparr> (500 + 3999) \<and>
   isDatabaseHealthy \<lparr>consecutiveFailures = 3, lastFailureTime = 500\<rparr> (500 + 4000) \<and>
   \<not> isDatabaseHealthy \<lparr>consecutiveFailures = 9, lastFailureTime = 500\<rparr> (500 + 59999) \<and>
   isDatabaseHealthy \<lparr>consecutiveFailures = 9, lastFailureTime = 500\<rparr> (500 + 60000) \<and>
   safeQuery (\<lambda>n::nat. (Resolved ''row'', Suc n)) 4499 4600
       (\<lparr>consecutiveFailures = 3, lastFailureTime = 500\<rparr>, 7) =
     (Fulfilled None, \<lparr>consecutiveFailures = 3, lastFailureTime = 500\<rparr>, 7) \<and>
   safeQuery (\<lambda>n::nat. (Resolved ''row'', Suc n)) 4500 4600
       (\<lparr>consecutiveFailures = 3, lastFailureTime = 500\<rparr>, 7) =
     (Fulfilled (Some ''row''), \<lparr>consecutiveFailures = 0, lastFailureTime = 0\<rparr>, 8)"
  using C7_health_gate [of 3 500 3999 "\<lparr>consecutiveFailures = 3, lastFailureTime = 500\<rparr>" 4499
      "\<lambda>n::nat. (Resolved ''row'', Suc n)" 4600 7 "''row''"]
    C7_health_gate [of 3 500 4000 "\<lparr>consecutiveFailures = 3, lastFailureTime = 500\<rparr>" 4500
      "\<lambda>n::nat. (Resolved ''row'', Suc n)" 4600 7 "''row''"]
    C7_health_gate [of 9 500 59999 "\<lparr>consecutiveFailures = 3, lastFailureTime = 500\<rparr>" 4500
      "\<lambda>n::nat. (Resolved ''row'', Suc n)" 4600 7 "''row''"]
    C7_health_gate [of 9 500 60000 "\<lparr>consecutiveFailures = 3, lastFailureTime = 500\<rparr>" 4500
      "\<lambda>n::nat. (Resolved ''row'', Suc n)" 4600 7 "''row''"]
  by simp

section \<open>Write-behind dispatch\<close>

text \<open>
  What one dispatch does to the world: nothing when the gate refuses; otherwise the
  statements run against the store, and a task that resolves resets the failure count.
  The correlation maps are never touched by a dispatch.
\<close>

lemma healthy_markHealthy [simp]: "isDatabaseHealthy (markHealthy h) now"
  by (simp add: isDatabaseHealthy_def markHealthy_def)

lemma dispatch_mem [simp]:
  "pendingExecutions (dispatch now task w) = pendingExecutions w"
  "callIdToPartId (dispatch now task w) = callIdToPartId w"
  "pendingUserMessages (dispatch now task w) = pendingUserMessages w"
  "tokensCountedBySession (dispatch now task w) = tokensCountedBySession w"
  "callIdTimestamps (dispatch now task w) = callIdTimestamps w"
  by (simp_all add: dispatch_def Let_def)

lemma dispatch_refused: "\<not> isDatabaseHealthy (gate w) now \<Longrightarrow> dispatch now task w = w"
  by (simp add: dispatch_def fireAndForget_def safeQuery_def Let_def)

lemma dispatch_store:
  "isDatabaseHealthy (gate w) now \<Longrightarrow>
   store (dispatch now task w) = snd (run_statements task (store w))"
  by (simp add: dispatch_def fireAndForget_def safeQuery_def Let_def split: race.splits)

lemma dispatch_gate_resolved:
  "isDatabaseHealthy (gate w) now \<Longrightarrow> fst (run_statements task (store w)) = Resolved () \<Longrightarrow>
   gate (dispatch now task w) = markHealthy (gate w)"
  by (simp add: dispatch_def fireAndForget_def safeQuery_def Let_def)

text \<open>The errors a statement of this model can raise are not connectivity failures.\<close>

lemma sql_error_keeps_gate:
  "msg \<in> {''path element at position 2 is not an integer'',
          ''path element at position 1 is not an integer'', ''cannot set path in scalar''} \<Longrightarrow>
   note_failure (Error msg) t h = h"
  by (auto simp add: note_failure_def is_connectivity_error_def)

lemma w0_healthy: "isDatabaseHealthy (gate initial_world) t"
  by (simp add: initial_world_def initial_health_def isDatabaseHealthy_def)

lemmas run_defs =
  dispatch_def fireAndForget_def safeQuery_def Let_def isDatabaseHealthy_def markHealthy_def
  initial_world_def initial_health_def empty_db_def or_null_def coalesce_def update_row_def


lemma no_failures_healthy: "consecutiveFailures h = 0 \<Longrightarrow> isDatabaseHealthy h t"
  by (simp add: isDatabaseHealthy_def)

lemma issue_admitted:
  "isDatabaseHealthy (gate w) now \<Longrightarrow> issue now task w = w\<lparr>inflight := inflight w @ [Write task]\<rparr>"
  by (simp add: issue_def)

lemma issue_refused: "\<not> isDatabaseHealthy (gate w) now \<Longrightarrow> issue now task w = w"
  by (simp add: issue_def)

lemma issue_frame [simp]:
  "pendingExecutions (issue now task w) = pendingExecutions w"
  "callIdToPartId (issue now task w) = callIdToPartId w"
  "pendingUserMessages (issue now task w) = pendingUserMessages w"
  "tokensCountedBySession (issue now task w) = tokensCountedBySession w"
  "callIdTimestamps (issue now task w) = callIdTimestamps w"
  "gate (issue now task w) = gate w"
  "store (issue now task w) = store w"
  by (simp_all add: issue_def)

text \<open>The errors a statement of this model can raise are not connectivity failures.\<close>

lemma jsonb_set_error:
  "jsonb_set_state_output c v = Inl msg \<Longrightarrow> \<not> is_connectivity_error (Error msg)"
  by (auto simp add: jsonb_set_state_output_def is_connectivity_error_def
      split: json.splits option.splits)

lemma sql_error_not_connectivity:
  "exec_stmt q d = Inl msg \<Longrightarrow> \<not> is_connectivity_error (Error msg)"
proof (cases q)
  case (PartSetOutput i v)
  assume "exec_stmt q d = Inl msg"
  with PartSetOutput show ?thesis
    by (auto simp add: jsonb_set_error split: option.splits if_splits sum.splits)
qed (auto simp add: is_connectivity_error_def fk_violation_def value_out_of_range_def
      integer_out_of_range_def invalid_integer_def numeric_overflow_def
      split: option.splits if_splits priority.splits)

lemma sql_error_keeps_gate2: "exec_stmt q d = Inl msg \<Longrightarrow> note_failure (Error msg) t h = h"
  by (simp add: note_failure_def sql_error_not_connectivity)

section \<open>Steps of the Store and the invariants\<close>

lemma set_remove_nth: "set (remove_nth n xs) \<subseteq> set xs"
  unfolding remove_nth_def by (auto dest: in_set_takeD in_set_dropD)

lemma list_all_remove_nth: "list_all Q xs \<Longrightarrow> list_all Q (remove_nth n xs)"
  using set_remove_nth [of n xs] by (auto simp add: list_all_iff)

lemma list_all_update: "list_all Q xs \<Longrightarrow> Q x \<Longrightarrow> list_all Q (xs[n := x])"
  by (auto simp add: list_all_iff dest: set_update_subset_insert [THEN subsetD])

lemma other_in_remove_nth:
  assumes "x \<in> set xs" "n < length xs" "xs ! n \<noteq> x"
  shows "x \<in> set (remove_nth n xs)"
proof -
  from assms(1) obtain i where i: "i < length xs" "xs ! i = x"
    by (auto simp add: in_set_conv_nth)
  with assms(3) have ne: "i \<noteq> n" by auto
  show ?thesis
  proof (cases "i < n")
    case True
    with i have "x \<in> set (take n xs)"
      by (auto simp add: in_set_conv_nth intro!: exI [of _ i])
    then show ?thesis by (simp add: remove_nth_def)
  next
    case False
    with ne have gt: "n < i" by simp
    with i have "x \<in> set (drop (Suc n) xs)"
      by (auto simp add: in_set_conv_nth intro!: exI [of _ "i - Suc n"])
    then show ?thesis by (simp add: remove_nth_def)
  qed
qed

lemma other_in_update:
  assumes "x \<in> set xs" "n < length xs" "xs ! n \<noteq> x"
  shows "x \<in> set (xs[n := y])"
proof -
  from assms(1) obtain i where i: "i < length xs" "xs ! i = x"
    by (auto simp add: in_set_conv_nth)
  with assms(3) have ne: "i \<noteq> n" by auto
  with i show ?thesis
    by (auto simp add: in_set_conv_nth intro!: exI [of _ i])
qed

lemma count_remove_nth_other:
  assumes "n < length xs" "xs ! n \<noteq> y"
  shows "count_list (remove_nth n xs) y = count_list xs y"
proof -
  have "xs = take n xs @ xs ! n # drop (Suc n) xs"
    using assms(1) by (simp add: id_take_nth_drop)
  then have "count_list xs y = count_list (take n xs @ xs ! n # drop (Suc n) xs) y"
    by simp
  also have "\<dots> = count_list (take n xs @ drop (Suc n) xs) y"
    using assms(2) by simp
  finally show ?thesis by (simp add: remove_nth_def)
qed

lemma count_remove_nth_same:
  assumes "n < length xs" "xs ! n = y"
  shows "Suc (count_list (remove_nth n xs) y) = count_list xs y"
proof -
  have "xs = take n xs @ xs ! n # drop (Suc n) xs"
    using assms(1) by (simp add: id_take_nth_drop)
  then have "count_list xs y = count_list (take n xs @ xs ! n # drop (Suc n) xs) y"
    by simp
  also have "\<dots> = Suc (count_list (take n xs @ drop (Suc n) xs) y)"
    using assms(2) by simp
  finally show ?thesis by (simp add: remove_nth_def)
qed

lemma count_update_other:
  assumes "n < length xs" "xs ! n \<noteq> y" "z \<noteq> y"
  shows "count_list (xs[n := z]) y = count_list xs y"
proof -
  have "xs = take n xs @ xs ! n # drop (Suc n) xs"
    using assms(1) by (simp add: id_take_nth_drop)
  then have a: "count_list xs y = count_list (take n xs @ xs ! n # drop (Suc n) xs) y"
    by simp
  have "xs[n := z] = take n xs @ z # drop (Suc n) xs"
    using assms(1) by (simp add: upd_conv_take_nth_drop)
  then show ?thesis using a assms(2,3) by simp
qed

text \<open>A step of the Store never touches the maps that the compaction handler leaves alone.\<close>

lemma settle_frame [simp]:
  "pendingExecutions (settle n w) = pendingExecutions w"
  "callIdToPartId (settle n w) = callIdToPartId w"
  "pendingUserMessages (settle n w) = pendingUserMessages w"
  "tokensCountedBySession (settle n w) = tokensCountedBySession w"
  "callIdTimestamps (settle n w) = callIdTimestamps w"
  "store (settle n w) = store w"
  "inflight (settle n w) = remove_nth n (inflight w)"
  "gate (settle n w) = markHealthy (gate w)"
  by (simp_all add: settle_def)

lemma advance_write_frame:
  "pendingExecutions (advance n t (Write qs) w) = pendingExecutions w \<and>
   callIdToPartId (advance n t (Write qs) w) = callIdToPartId w \<and>
   pendingUserMessages (advance n t (Write qs) w) = pendingUserMessages w \<and>
   tokensCountedBySession (advance n t (Write qs) w) = tokensCountedBySession w \<and>
   callIdTimestamps (advance n t (Write qs) w) = callIdTimestamps w"
  by (cases qs) (simp_all split: sum.splits)

lemma store_step_frame:
  "pendingExecutions (store_step n t w) = pendingExecutions w \<and>
   callIdToPartId (store_step n t w) = callIdToPartId w \<and>
   pendingUserMessages (store_step n t w) = pendingUserMessages w \<and>
   callIdTimestamps (store_step n t w) = callIdTimestamps w"
proof (cases "n < length (inflight w)")
  case False
  then show ?thesis by (simp add: store_step_def)
next
  case True
  show ?thesis
  proof (cases "inflight w ! n")
    case (Write qs)
    with True advance_write_frame [of n t qs w] show ?thesis by (simp add: store_step_def)
  next
    case (CompactionRead sid)
    with True show ?thesis
      by (simp add: store_step_def after_compaction_read_def Let_def split: option.splits)
  qed
qed

lemma store_step_tokens:
  "n < length (inflight w) \<Longrightarrow> inflight w ! n = Write qs \<Longrightarrow>
   tokensCountedBySession (store_step n t w) = tokensCountedBySession w"
  using advance_write_frame [of n t qs w] by (simp add: store_step_def)

lemma store_step_idle: "\<not> n < length (inflight w) \<Longrightarrow> store_step n t w = w"
  by (simp add: store_step_def)

text \<open>What one step does with a task of statements, when no failure is counted.\<close>

lemma store_step_write:
  assumes "n < length (inflight w)" "inflight w ! n = Write (q # qs)"
  shows "store_step n t w =
     (case exec_stmt q (store w) of
        Inl msg \<Rightarrow> w\<lparr>inflight := remove_nth n (inflight w)\<rparr>
      | Inr d \<Rightarrow>
          if qs = [] then w\<lparr>inflight := remove_nth n (inflight w), gate := markHealthy (gate w),
                             store := d\<rparr>
          else w\<lparr>inflight := (inflight w)[n := Write qs], store := d\<rparr>)"
  using assms by (simp add: store_step_def settle_def sql_error_keeps_gate2 split: sum.splits)

lemma markHealthy_failures [simp]: "consecutiveFailures (markHealthy h) = 0"
  by (simp add: markHealthy_def)

lemma safe_store_step:
  assumes k: "keeps P S" and s: "safe P S w"
  shows "safe P S (store_step n t w)"
proof (cases "n < length (inflight w)")
  case False
  with s show ?thesis by (simp add: store_step_def)
next
  case True
  from s have all: "list_all (task_all P) (inflight w)" and S: "S (store w)"
    by (simp_all add: safe_def)
  from all True have tn: "task_all P (inflight w ! n)"
    by (simp add: list_all_length)
  show ?thesis
  proof (cases "inflight w ! n")
    case (CompactionRead sid)
    with tn show ?thesis by simp
  next
    case (Write qs)
    show ?thesis
    proof (cases qs)
      case Nil
      with Write True S all show ?thesis
        by (simp add: store_step_def safe_def list_all_remove_nth)
    next
      case (Cons q qs')
      with Write tn have Pq: "P q" and Pqs: "list_all P qs'" by simp_all
      show ?thesis
      proof (cases "exec_stmt q (store w)")
        case (Inl msg)
        with Write Cons True S all show ?thesis
          by (simp add: store_step_write safe_def list_all_remove_nth)
      next
        case (Inr d)
        with k Pq S have "S d" unfolding keeps_def by blast
        with Inr Write Cons True all Pqs show ?thesis
          by (simp add: store_step_write safe_def list_all_remove_nth list_all_update)
      qed
    qed
  qed
qed

lemma safe_sweep: "safe P S w \<Longrightarrow> safe P S (cleanupStaleMaps s w)"
  by (simp add: safe_def cleanupStaleMaps_def)

lemma safe_background:
  "keeps P S \<Longrightarrow> list_all (background T) bg \<Longrightarrow> safe P S w \<Longrightarrow> safe P S (run bg w)"
proof (induction bg arbitrary: w)
  case Nil
  then show ?case by simp
next
  case (Cons a bg)
  from Cons.prems(2) have "background T a" and rest: "list_all (background T) bg" by simp_all
  then have "safe P S (act a w)"
    using Cons.prems(1,3) by (cases a) (simp_all add: safe_store_step safe_sweep)
  with Cons.IH [OF Cons.prems(1) rest] show ?case by simp
qed

lemma safe_issue: "safe P S w \<Longrightarrow> list_all P task \<Longrightarrow> safe P S (issue now task w)"
  by (simp add: safe_def issue_def)

lemma safe_weaken:
  "safe P S w \<Longrightarrow> (\<And>q. P q \<Longrightarrow> P' q) \<Longrightarrow> (\<And>d. S d \<Longrightarrow> S' d) \<Longrightarrow> safe P' S' w"
proof -
  assume s: "safe P S w" and p: "\<And>q. P q \<Longrightarrow> P' q" and d: "\<And>d. S d \<Longrightarrow> S' d"
  have "\<And>x. task_all P x \<Longrightarrow> task_all P' x"
  proof -
    fix x assume "task_all P x"
    then show "task_all P' x" using p by (cases x) (auto simp add: list_all_iff)
  qed
  with s d show ?thesis by (auto simp add: safe_def list_all_iff)
qed

lemma quiet_safe: "inflight w = [] \<Longrightarrow> S (store w) \<Longrightarrow> safe P S w"
  by (simp add: safe_def)

lemma keepsD: "keeps P S \<Longrightarrow> P q \<Longrightarrow> S d \<Longrightarrow> exec_stmt q d = Inr d' \<Longrightarrow> S d'"
  unfolding keeps_def by blast

lemma store_step_cases:
  assumes "n < length (inflight w)" "inflight w ! n = Write (q # qs)"
  obtains (raised) msg where "exec_stmt q (store w) = Inl msg"
      "store (store_step n t w) = store w"
      "inflight (store_step n t w) = remove_nth n (inflight w)"
      "gate (store_step n t w) = gate w"
    | (last) d where "exec_stmt q (store w) = Inr d" "qs = []"
      "store (store_step n t w) = d"
      "inflight (store_step n t w) = remove_nth n (inflight w)"
      "gate (store_step n t w) = markHealthy (gate w)"
    | (more) d where "exec_stmt q (store w) = Inr d" "qs \<noteq> []"
      "store (store_step n t w) = d"
      "inflight (store_step n t w) = (inflight w)[n := Write qs]"
      "gate (store_step n t w) = gate w"
proof (cases "exec_stmt q (store w)")
  case (Inl msg)
  with assms show ?thesis by (intro raised [of msg]) (simp_all add: store_step_write)
next
  case (Inr d)
  show ?thesis
  proof (cases "qs = []")
    case True
    with Inr assms show ?thesis by (intro last [of d]) (simp_all add: store_step_write)
  next
    case False
    with Inr assms show ?thesis by (intro more [of d]) (simp_all add: store_step_write)
  qed
qed

lemma pending_or_store_step:
  assumes kS: "keeps P S" and kR: "keeps P (\<lambda>d. S d \<and> R d)" and kT: "keeps P (\<lambda>d. S d \<and> T d)"
    and PI: "P I" and PU: "P U"
    and I: "\<And>d. S d \<Longrightarrow> \<exists>d'. exec_stmt I d = Inr d' \<and> R d'"
    and U: "\<And>d. S d \<Longrightarrow> R d \<Longrightarrow> \<exists>d'. exec_stmt U d = Inr d' \<and> T d'"
    and s: "safe P S w" and p: "pending_or I U R T w"
  shows "pending_or I U R T (store_step n t w)"
proof (cases "n < length (inflight w)")
  case False
  with p show ?thesis by (simp add: store_step_def)
next
  case True
  let ?w' = "store_step n t w"
  from s have all: "list_all (task_all P) (inflight w)" and S: "S (store w)"
    by (simp_all add: safe_def)
  from all True have tn: "task_all P (inflight w ! n)"
    by (simp add: list_all_length)
  show ?thesis
  proof (cases "inflight w ! n")
    case (CompactionRead sid)
    with tn show ?thesis by simp
  next
    case (Write qs)
    show ?thesis
    proof (cases qs)
      case Nil
      with Write True have st: "store ?w' = store w" "inflight ?w' = remove_nth n (inflight w)"
        by (simp_all add: store_step_def)
      from Write Nil have ne: "inflight w ! n \<noteq> Write [I, U]" "inflight w ! n \<noteq> Write [U]"
        by simp_all
      from p consider (whole) "Write [I, U] \<in> set (inflight w)"
        | (half) "Write [U] \<in> set (inflight w)" "R (store w)" | (reached) "T (store w)"
        by (auto simp add: pending_or_def)
      then show ?thesis
      proof cases
        case whole
        from other_in_remove_nth [OF whole True ne(1)] show ?thesis
          by (simp add: pending_or_def st)
      next
        case half
        from other_in_remove_nth [OF half(1) True ne(2)] half(2) show ?thesis
          by (simp add: pending_or_def st)
      next
        case reached
        then show ?thesis by (simp add: pending_or_def st)
      qed
    next
      case (Cons q qs')
      with Write tn have Pq: "P q" by simp
      from Write Cons have x: "inflight w ! n = Write (q # qs')" by simp
      have keepR: "\<And>d. exec_stmt q (store w) = Inr d \<Longrightarrow> R (store w) \<Longrightarrow> R d"
      proof -
        fix d assume "exec_stmt q (store w) = Inr d" "R (store w)"
        with keepsD [OF kR Pq, of "store w" d] S show "R d" by simp
      qed
      have keepT: "\<And>d. exec_stmt q (store w) = Inr d \<Longrightarrow> T (store w) \<Longrightarrow> T d"
      proof -
        fix d assume "exec_stmt q (store w) = Inr d" "T (store w)"
        with keepsD [OF kT Pq, of "store w" d] S show "T d" by simp
      qed
      show ?thesis
      proof (cases "inflight w ! n = Write [I, U]")
        case True
        with x have q: "q = I" "qs' = [U]" by simp_all
        from I [OF S] obtain d' where d': "exec_stmt I (store w) = Inr d'" "R d'" by blast
        from x q d' \<open>n < length (inflight w)\<close>
        have "store ?w' = d'" "inflight ?w' = (inflight w)[n := Write [U]]"
          by (simp_all add: store_step_write)
        with d'(2) \<open>n < length (inflight w)\<close> show ?thesis
          by (simp add: pending_or_def set_update_memI)
      next
        case notIU: False
        show ?thesis
        proof (cases "inflight w ! n = Write [U]")
          case True
          with x have q: "q = U" "qs' = []" by simp_all
          from p consider (whole) "Write [I, U] \<in> set (inflight w)"
            | (half) "R (store w)" | (reached) "T (store w)"
            by (auto simp add: pending_or_def)
          then show ?thesis
          proof cases
            case whole
            have "inflight ?w' = remove_nth n (inflight w)"
              using x q \<open>n < length (inflight w)\<close>
              by (simp add: store_step_write split: sum.splits)
            with other_in_remove_nth [OF whole \<open>n < length (inflight w)\<close> notIU]
            show ?thesis by (simp add: pending_or_def)
          next
            case half
            from U [OF S half] obtain d' where d': "exec_stmt U (store w) = Inr d'" "T d'"
              by blast
            with x q \<open>n < length (inflight w)\<close> have "store ?w' = d'"
              by (simp add: store_step_write)
            with d'(2) show ?thesis by (simp add: pending_or_def)
          next
            case reached
            from \<open>n < length (inflight w)\<close> x show ?thesis
            proof (cases rule: store_step_cases [where t = t])
              case (raised msg)
              with reached show ?thesis by (simp add: pending_or_def)
            next
              case (last d)
              with keepT reached show ?thesis by (simp add: pending_or_def)
            next
              case (more d)
              with keepT reached show ?thesis by (simp add: pending_or_def)
            qed
          qed
        next
          case notU: False
          have stay: "\<And>y. y \<in> set (inflight w) \<Longrightarrow> inflight w ! n \<noteq> y \<Longrightarrow> y \<in> set (inflight ?w')"
          proof -
            fix y assume y: "y \<in> set (inflight w)" "inflight w ! n \<noteq> y"
            from \<open>n < length (inflight w)\<close> x show "y \<in> set (inflight ?w')"
            proof (cases rule: store_step_cases [where t = t])
              case (raised msg)
              with other_in_remove_nth [OF y(1) \<open>n < length (inflight w)\<close> y(2)] show ?thesis
                by simp
            next
              case (last d)
              with other_in_remove_nth [OF y(1) \<open>n < length (inflight w)\<close> y(2)] show ?thesis
                by simp
            next
              case (more d)
              with other_in_update [OF y(1) \<open>n < length (inflight w)\<close> y(2)] show ?thesis
                by simp
            qed
          qed
          have R': "R (store w) \<Longrightarrow> R (store ?w')"
            using \<open>n < length (inflight w)\<close> x
            by (cases rule: store_step_cases [where t = t]) (simp_all add: keepR)
          have T': "T (store w) \<Longrightarrow> T (store ?w')"
            using \<open>n < length (inflight w)\<close> x
            by (cases rule: store_step_cases [where t = t]) (simp_all add: keepT)
          from p consider (whole) "Write [I, U] \<in> set (inflight w)"
            | (half) "Write [U] \<in> set (inflight w)" "R (store w)" | (reached) "T (store w)"
            by (auto simp add: pending_or_def)
          then show ?thesis
          proof cases
            case whole
            from stay [OF whole notIU] show ?thesis by (simp add: pending_or_def)
          next
            case half
            from stay [OF half(1) notU] R' [OF half(2)] show ?thesis by (simp add: pending_or_def)
          next
            case reached
            from T' [OF reached] show ?thesis by (simp add: pending_or_def)
          qed
        qed
      qed
    qed
  qed
qed

lemma pending_or_sweep: "pending_or I U R T w \<Longrightarrow> pending_or I U R T (cleanupStaleMaps s w)"
  by (simp add: pending_or_def cleanupStaleMaps_def)

lemma pending_or_issue: "pending_or I U R T w \<Longrightarrow> pending_or I U R T (issue now task w)"
  by (auto simp add: pending_or_def issue_def)

lemma pending_or_quiet: "pending_or I U R T w \<Longrightarrow> inflight w = [] \<Longrightarrow> T (store w)"
  by (simp add: pending_or_def)

lemma pending_or_background:
  assumes kS: "keeps P S" and kR: "keeps P (\<lambda>d. S d \<and> R d)" and kT: "keeps P (\<lambda>d. S d \<and> T d)"
    and PI: "P I" and PU: "P U"
    and I: "\<And>d. S d \<Longrightarrow> \<exists>d'. exec_stmt I d = Inr d' \<and> R d'"
    and U: "\<And>d. S d \<Longrightarrow> R d \<Longrightarrow> \<exists>d'. exec_stmt U d = Inr d' \<and> T d'"
  shows "list_all (background B) bg \<Longrightarrow> safe P S w \<Longrightarrow> pending_or I U R T w \<Longrightarrow>
         pending_or I U R T (run bg w)"
proof (induction bg arbitrary: w)
  case Nil
  then show ?case by simp
next
  case (Cons a bg)
  from Cons.prems(1) have a: "background B a" and rest: "list_all (background B) bg" by simp_all
  from a have s': "safe P S (act a w)"
    using Cons.prems(2) kS by (cases a) (simp_all add: safe_store_step safe_sweep)
  have step: "\<And>n t. pending_or I U R T (store_step n t w)"
    by (rule pending_or_store_step [OF kS kR kT PI PU I U Cons.prems(2) Cons.prems(3)])
  from a have p': "pending_or I U R T (act a w)"
    using step pending_or_sweep [OF Cons.prems(3)]
    by (cases a) simp_all
  from Cons.IH [OF rest s' p'] show ?case by simp
qed

section \<open>A statement that runs once\<close>

lemma once_store_step:
  assumes kP0: "keeps P P0" and kP1: "keeps P P1" and nA: "\<not> P A"
    and A: "\<And>d. P0 d \<Longrightarrow> \<exists>d'. exec_stmt A d = Inr d' \<and> P1 d'"
    and o: "once P A P0 P1 w"
  shows "once P A P0 P1 (store_step n t w)"
proof (cases "n < length (inflight w)")
  case False
  with o show ?thesis by (simp add: store_step_def)
next
  case True
  let ?w' = "store_step n t w"
  let ?Q = "\<lambda>x. x = Write [A] \<or> task_all P x"
  from o have all: "list_all ?Q (inflight w)"
    and c: "(count_list (inflight w) (Write [A]) = 1 \<and> P0 (store w)) \<or>
            (count_list (inflight w) (Write [A]) = 0 \<and> P1 (store w))"
    by (simp_all add: once_def)
  from all True have qn: "?Q (inflight w ! n)" by (simp add: list_all_length)
  show ?thesis
  proof (cases "inflight w ! n = Write [A]")
    case isA: True
    then have mem: "Write [A] \<in> set (inflight w)" using True by (metis nth_mem)
    then have "count_list (inflight w) (Write [A]) \<noteq> 0" by (simp add: count_list_0_iff)
    with c have c1: "count_list (inflight w) (Write [A]) = 1" and P0: "P0 (store w)" by auto
    from A [OF P0] obtain d' where d': "exec_stmt A (store w) = Inr d'" "P1 d'" by blast
    from isA d' True have st: "store ?w' = d'" "inflight ?w' = remove_nth n (inflight w)"
      "gate ?w' = markHealthy (gate w)"
      by (simp_all add: store_step_write)
    from count_remove_nth_same [OF True isA] c1
    have "count_list (remove_nth n (inflight w)) (Write [A]) = 0" by simp
    with st d'(2) all show ?thesis by (simp add: once_def list_all_remove_nth)
  next
    case notA: False
    with qn have tp: "task_all P (inflight w ! n)" by simp
    show ?thesis
    proof (cases "inflight w ! n")
      case (CompactionRead sid)
      with tp show ?thesis by simp
    next
      case (Write qs)
      show ?thesis
      proof (cases qs)
        case Nil
        with Write True have st: "store ?w' = store w" "inflight ?w' = remove_nth n (inflight w)"
          "gate ?w' = markHealthy (gate w)"
          by (simp_all add: store_step_def)
        with c all count_remove_nth_other [OF True notA] show ?thesis
          by (simp add: once_def list_all_remove_nth)
      next
        case (Cons q qs')
        with Write tp have Pq: "P q" and Pqs: "list_all P qs'" by simp_all
        from Write Cons have x: "inflight w ! n = Write (q # qs')" by simp
        have k0: "\<And>d. exec_stmt q (store w) = Inr d \<Longrightarrow> P0 (store w) \<Longrightarrow> P0 d"
          using keepsD [OF kP0 Pq] by blast
        have k1: "\<And>d. exec_stmt q (store w) = Inr d \<Longrightarrow> P1 (store w) \<Longrightarrow> P1 d"
          using keepsD [OF kP1 Pq] by blast
        have tail: "Write qs' \<noteq> Write [A]" using Pqs nA by auto
        from True x show ?thesis
        proof (cases rule: store_step_cases [where t = t])
          case (raised msg)
          with c all count_remove_nth_other [OF True notA] show ?thesis
            by (simp add: once_def list_all_remove_nth)
        next
          case (last d)
          with c all k0 k1 count_remove_nth_other [OF True notA] show ?thesis
            by (auto simp add: once_def list_all_remove_nth)
        next
          case (more d)
          have "list_all ?Q ((inflight w)[n := Write qs'])"
            using all Pqs by (intro list_all_update) simp_all
          with more c k0 k1 count_update_other [OF True notA tail] show ?thesis
            by (auto simp add: once_def)
        qed
      qed
    qed
  qed
qed

lemma once_sweep: "once P A P0 P1 w \<Longrightarrow> once P A P0 P1 (cleanupStaleMaps s w)"
  by (simp add: once_def cleanupStaleMaps_def)

lemma once_issue:
  "once P A P0 P1 w \<Longrightarrow> list_all P task \<Longrightarrow> \<not> P A \<Longrightarrow> once P A P0 P1 (issue now task w)"
  by (auto simp add: once_def issue_def)

lemma once_quiet: "once P A P0 P1 w \<Longrightarrow> inflight w = [] \<Longrightarrow> P1 (store w)"
  by (simp add: once_def)

lemma once_background:
  assumes kP0: "keeps P P0" and kP1: "keeps P P1" and nA: "\<not> P A"
    and A: "\<And>d. P0 d \<Longrightarrow> \<exists>d'. exec_stmt A d = Inr d' \<and> P1 d'"
  shows "list_all (background B) bg \<Longrightarrow> once P A P0 P1 w \<Longrightarrow> once P A P0 P1 (run bg w)"
proof (induction bg arbitrary: w)
  case Nil
  then show ?case by simp
next
  case (Cons a bg)
  from Cons.prems(1) have a: "background B a" and rest: "list_all (background B) bg" by simp_all
  from a have "once P A P0 P1 (act a w)"
    using once_store_step [OF kP0 kP1 nA A Cons.prems(2)] once_sweep [OF Cons.prems(2)]
    by (cases a) simp_all
  from Cons.IH [OF rest this] show ?case by simp
qed

section \<open>The gate while the connection holds\<close>

lemma gate_store_step:
  "consecutiveFailures (gate w) = 0 \<Longrightarrow> consecutiveFailures (gate (store_step n t w)) = 0"
proof (cases "n < length (inflight w)")
  case False
  assume "consecutiveFailures (gate w) = 0"
  with False show ?thesis by (simp add: store_step_def)
next
  case True
  assume g: "consecutiveFailures (gate w) = 0"
  show ?thesis
  proof (cases "inflight w ! n")
    case (CompactionRead sid)
    with True show ?thesis
      by (simp add: store_step_def after_compaction_read_def Let_def split: option.splits)
  next
    case (Write qs)
    show ?thesis
    proof (cases qs)
      case Nil
      with Write True show ?thesis by (simp add: store_step_def)
    next
      case (Cons q qs')
      with Write True g show ?thesis
        by (simp add: store_step_write split: sum.splits)
    qed
  qed
qed

lemma track_call_frame [simp]:
  "gate (track_call now part w) = gate w"
  "store (track_call now part w) = store w"
  "inflight (track_call now part w) = inflight w"
  "tokensCountedBySession (track_call now part w) = tokensCountedBySession w"
  "pendingUserMessages (track_call now part w) = pendingUserMessages w"
  by (simp_all add: track_call_def split: option.splits)

lemma part_updated_frame [simp]:
  "gate (on_message_part_updated now part w) = gate w"
  "store (on_message_part_updated now part w) = store w"
  "tokensCountedBySession (on_message_part_updated now part w) = tokensCountedBySession w"
  by (simp_all add: on_message_part_updated_def Let_def split: option.splits)

lemma message_updated_frame [simp]:
  "gate (on_message_updated now info w) = gate w"
  "store (on_message_updated now info w) = store w"
  "pendingExecutions (on_message_updated now info w) = pendingExecutions w"
  "callIdToPartId (on_message_updated now info w) = callIdToPartId w"
  by (simp_all add: on_message_updated_def Let_def split: option.splits)

lemma tool_before_frame [simp]:
  "gate (on_tool_execute_before now cid tool sid callID args w) = gate w"
  "store (on_tool_execute_before now cid tool sid callID args w) = store w"
  "tokensCountedBySession (on_tool_execute_before now cid tool sid callID args w) =
     tokensCountedBySession w"
  by (simp_all add: on_tool_execute_before_def)

lemma tool_after_frame [simp]:
  "gate (on_tool_execute_after now cid tool sid callID out metadata w) = gate w"
  "store (on_tool_execute_after now cid tool sid callID out metadata w) = store w"
  "tokensCountedBySession (on_tool_execute_after now cid tool sid callID out metadata w) =
     tokensCountedBySession w"
  by (simp_all add: on_tool_execute_after_def Let_def split: option.splits)

lemma sweep_frame [simp]:
  "gate (cleanupStaleMaps s w) = gate w"
  "store (cleanupStaleMaps s w) = store w"
  "inflight (cleanupStaleMaps s w) = inflight w"
  by (simp_all add: cleanupStaleMaps_def)

lemma gate_act:
  "consecutiveFailures (gate w) = 0 \<Longrightarrow> consecutiveFailures (gate (act a w)) = 0"
  by (cases a)
     (simp_all add: gate_store_step on_session_deleted_def on_session_compacted_def
       on_chat_message_def Let_def split: option.splits)

lemma gate_run:
  "consecutiveFailures (gate w) = 0 \<Longrightarrow> consecutiveFailures (gate (run tr w)) = 0"
  by (induction tr arbitrary: w) (simp_all add: gate_act)

section \<open>A world with nothing or one task in flight\<close>



section \<open>The correlation maps between two events\<close>


lemma no_pending_background:
  "list_all (background T) bg \<Longrightarrow> pendingExecutions w c = None \<Longrightarrow>
   pendingExecutions (run bg w) c = None"
proof (induction bg arbitrary: w)
  case Nil
  then show ?case by simp
next
  case (Cons a bg)
  from Cons.prems(1) have a: "background T a" and rest: "list_all (background T) bg" by simp_all
  from a Cons.prems(2) have "pendingExecutions (act a w) c = None"
    using store_step_frame
    by (cases a) (simp_all add: cleanupStaleMaps_def)
  from Cons.IH [OF rest this] show ?case by simp
qed

lemma map_of_filter_kept:
  "map_of m k = Some v \<Longrightarrow> Q (k, v) \<Longrightarrow> map_of (filter Q m) k = Some v"
  by (induction m) (auto split: if_splits)

lemma map_of_filter_none: "map_of m k = None \<Longrightarrow> map_of (filter Q m) k = None"
  by (induction m) (auto split: if_splits)

lemma counted_sweep:
  assumes "tokensCountedBySession w sid = Some m" "map_of m mid = Some ts" "s \<le> ts + 900000"
  shows "\<exists>m'. tokensCountedBySession (cleanupStaleMaps s w) sid = Some m' \<and> map_of m' mid = Some ts"
proof -
  let ?Q = "\<lambda>e. \<not> s - snd e > STALE_ENTRY_TIMEOUT_MS"
  from assms(3) have "?Q (mid, ts)" by (simp add: STALE_ENTRY_TIMEOUT_MS_def)
  with assms(2) have k: "map_of (filter ?Q m) mid = Some ts" by (rule map_of_filter_kept)
  then have "filter ?Q m \<noteq> []" by auto
  with assms(1) k show ?thesis by (simp add: cleanupStaleMaps_def Let_def)
qed

lemma counted_background:
  "list_all (background T) bg \<Longrightarrow> list_all (task_all P) (inflight w) \<Longrightarrow>
   tokensCountedBySession w sid = Some m \<Longrightarrow> map_of m mid = Some ts \<Longrightarrow> T \<le> ts + 900000 \<Longrightarrow>
   \<exists>m'. tokensCountedBySession (run bg w) sid = Some m' \<and> map_of m' mid = Some ts"
proof (induction bg arbitrary: w m)
  case Nil
  then show ?case by simp
next
  case (Cons a bg)
  from Cons.prems(1) have a: "background T a" and rest: "list_all (background T) bg" by simp_all
  have all: "list_all (task_all P) (inflight (act a w))"
    using safe_store_step [of P "\<lambda>d. True" w] safe_sweep [of P "\<lambda>d. True" w] Cons.prems(2) a
    by (cases a) (simp_all add: safe_def keeps_def)
  have "\<exists>m'. tokensCountedBySession (act a w) sid = Some m' \<and> map_of m' mid = Some ts"
  proof (cases a)
    case (Sweep s)
    with a Cons.prems(5) have "s \<le> ts + 900000" by simp
    from counted_sweep [OF Cons.prems(3,4) this] Sweep show ?thesis by simp
  next
    case (Store n t)
    show ?thesis
    proof (cases "n < length (inflight w)")
      case False
      with Store Cons.prems(3,4) show ?thesis by (simp add: store_step_def)
    next
      case True
      with Cons.prems(2) have "task_all P (inflight w ! n)" by (simp add: list_all_length)
      then obtain qs where "inflight w ! n = Write qs" by (cases "inflight w ! n") simp_all
      from store_step_tokens [OF True this] Store Cons.prems(3,4) show ?thesis by simp
    qed
  qed (use a in simp_all)
  then obtain m' where m': "tokensCountedBySession (act a w) sid = Some m'" "map_of m' mid = Some ts"
    by blast
  from Cons.IH [OF rest all m' Cons.prems(5)] show ?case by simp
qed

lemma not_counted_act:
  "background T a \<Longrightarrow> \<not> counted w sid mid \<Longrightarrow> \<not> counted (act a w) sid mid"
proof (cases a)
  case (Sweep s)
  assume "\<not> counted w sid mid"
  then show ?thesis using Sweep
    by (auto simp add: counted_def cleanupStaleMaps_def Let_def map_of_filter_none
        split: option.splits if_splits)
next
  case (Store n t)
  assume nc: "\<not> counted w sid mid"
  show ?thesis
  proof (cases "n < length (inflight w)")
    case False
    with Store nc show ?thesis by (simp add: store_step_def)
  next
    case True
    show ?thesis
    proof (cases "inflight w ! n")
      case (Write qs)
      from store_step_tokens [OF True this] Store nc show ?thesis by (simp add: counted_def)
    next
      case (CompactionRead s)
      with True Store nc show ?thesis
        by (simp add: store_step_def counted_def after_compaction_read_def Let_def
            split: option.splits)
    qed
  qed
qed simp_all

lemma not_counted_background:
  "list_all (background T) bg \<Longrightarrow> \<not> counted w sid mid \<Longrightarrow> \<not> counted (run bg w) sid mid"
proof (induction bg arbitrary: w)
  case Nil
  then show ?case by simp
next
  case (Cons a bg)
  from Cons.prems(1) have a: "background T a" and rest: "list_all (background T) bg" by simp_all
  from not_counted_act [OF a Cons.prems(2)] Cons.IH [OF rest] show ?case by simp
qed

section \<open>What the handlers issue\<close>

lemma part_updated_inflight:
  "isDatabaseHealthy (gate w) now \<Longrightarrow>
   inflight (on_message_part_updated now part w) = inflight w @ map Write (part_tasks part)"
  by (simp add: on_message_part_updated_def part_tasks_def Let_def issue_def
      split: option.splits)

lemma part_updated_refused:
  "\<not> isDatabaseHealthy (gate w) now \<Longrightarrow>
   inflight (on_message_part_updated now part w) = inflight w"
  by (simp add: on_message_part_updated_def Let_def issue_def split: option.splits)

lemma task_all_Write: "list_all (task_all P) (map Write ts) = list_all (list_all P) ts"
  by (induction ts) simp_all

lemma safe_part_updated:
  "safe P S w \<Longrightarrow> list_all (list_all P) (part_tasks part) \<Longrightarrow>
   safe P S (on_message_part_updated now part w)"
  by (cases "isDatabaseHealthy (gate w) now")
     (simp_all add: safe_def part_updated_inflight part_updated_refused task_all_Write)

lemma pending_or_part_updated:
  "pending_or I U R T w \<Longrightarrow> pending_or I U R T (on_message_part_updated now part w)"
  by (cases "isDatabaseHealthy (gate w) now")
     (auto simp add: pending_or_def part_updated_inflight part_updated_refused)

lemma part_updated_pending:
  "isDatabaseHealthy (gate w) now \<Longrightarrow> part_task part = [I, U] \<Longrightarrow>
   pending_or I U R T (on_message_part_updated now part w)"
  by (simp add: pending_or_def part_updated_inflight part_tasks_def)

lemmas eval_defs =
  issue_def store_step_def settle_def remove_nth_def Let_def isDatabaseHealthy_def
  markHealthy_def note_failure_def initial_world_def initial_health_def empty_db_def
  or_null_def coalesce_def update_row_def

lemma seeded_world_explicit:
  "seeded_world =
     initial_world\<lparr>store := empty_db
       \<lparr>sessions := [''s1'' \<mapsto> default_session\<lparr>s_title := Some ''T'', s_status := Some ''created''\<rparr>],
        messages := [''m1'' \<mapsto>
          \<lparr>m_session_id = ''s1'', m_role = ''assistant'', m_model_provider = None,
           m_model_id = None, m_text = None, m_summary = None, m_content = None,
           m_system_prompt = None\<rparr>]\<rparr>\<rparr>"
  by (simp add: seeded_world_def sample_session_def sample_message_def session_created_task_def
      on_message_updated_def eval_defs default_session_def)



section \<open>Tool executions\<close>









lemma seeded_world_record:
  "seeded_world =
     \<lparr>pendingExecutions = Map.empty, callIdToPartId = Map.empty,
      pendingUserMessages = Map.empty, tokensCountedBySession = Map.empty,
      callIdTimestamps = Map.empty,
      gate = \<lparr>consecutiveFailures = 0, lastFailureTime = 0\<rparr>,
      store = \<lparr>sessions = [''s1'' \<mapsto> default_session\<lparr>s_title := Some ''T'', s_status := Some ''created''\<rparr>],
        messages = [''m1'' \<mapsto>
          \<lparr>m_session_id = ''s1'', m_role = ''assistant'', m_model_provider = None,
           m_model_id = None, m_text = None, m_summary = None, m_content = None,
           m_system_prompt = None\<rparr>],
        message_parts = Map.empty, tool_executions = [], session_errors = [],
        compactions = []\<rparr>,
      inflight = []\<rparr>"
  by (simp add: seeded_world_explicit initial_world_def empty_db_def initial_health_def)




section \<open>Sessions\<close>

text \<open>
  Claim C8. When the stored session row has a title, a \<^verbatim>\<open>session.updated\<close> (and
  a repeated \<^verbatim>\<open>session.created\<close>) whose title is absent leaves the stored title as it
  is. With an admitting gate, every column these two handlers update takes the incoming
  value when it is present and keeps the stored one otherwise.
\<close>

theorem C8_session_title_kept:
  "(sessions (store w) (si_id info) = Some r \<and> s_title r = Some T \<and> or_null (si_title info) = None \<longrightarrow>
      map_option s_title (sessions (store (on_session_updated now info w)) (si_id info)) = Some (Some T) \<and>
      map_option s_title (sessions (store (on_session_created now info w)) (si_id info)) = Some (Some T)) \<and>
   (sessions (store w) (si_id info) = Some r \<and> isDatabaseHealthy (gate w) now \<longrightarrow>
      sessions (store (on_session_updated now info w)) (si_id info) =
        Some (r\<lparr>s_title := (case or_null (si_title info) of None \<Rightarrow> s_title r | Some t \<Rightarrow> Some t),
               s_share_url := (case or_null (case si_share info of None \<Rightarrow> None | Some u \<Rightarrow> u) of
                                 None \<Rightarrow> s_share_url r | Some u \<Rightarrow> Some u)\<rparr>) \<and>
      sessions (store (on_session_created now info w)) (si_id info) =
        Some (r\<lparr>s_title := (case or_null (si_title info) of None \<Rightarrow> s_title r | Some t \<Rightarrow> Some t),
               s_parent_id := (case or_null (si_parentID info) of None \<Rightarrow> s_parent_id r | Some t \<Rightarrow> Some t),
               s_project_id := (case or_null (si_projectID info) of None \<Rightarrow> s_project_id r | Some t \<Rightarrow> Some t),
               s_directory := (case or_null (si_directory info) of None \<Rightarrow> s_directory r | Some t \<Rightarrow> Some t)\<rparr>))"
  by (cases "isDatabaseHealthy (gate w) now")
     (simp_all add: on_session_updated_def on_session_created_def dispatch_store dispatch_refused
       update_row_def coalesce_def)

text \<open>
  The scenario of the specification: \<^verbatim>\<open>session.created{id: s1, title: T}\<close>, then
  \<^verbatim>\<open>session.updated{id: s1, title: null}\<close> carrying a share URL.
\<close>

theorem C8_session_title_kept_witness:
  "map_option s_title (sessions (store (on_session_updated 20
       \<lparr>si_id = ''s1'', si_title = None, si_parentID = None, si_projectID = None,
        si_directory = None, si_share = Some (Some ''https://share/s1'')\<rparr>
       (on_session_created 10
          \<lparr>si_id = ''s1'', si_title = Some ''T'', si_parentID = None, si_projectID = None,
           si_directory = None, si_share = None\<rparr> initial_world))) ''s1'') = Some (Some ''T'') \<and>
   map_option s_share_url (sessions (store (on_session_updated 20
       \<lparr>si_id = ''s1'', si_title = None, si_parentID = None, si_projectID = None,
        si_directory = None, si_share = Some (Some ''https://share/s1'')\<rparr>
       (on_session_created 10
          \<lparr>si_id = ''s1'', si_title = Some ''T'', si_parentID = None, si_projectID = None,
           si_directory = None, si_share = None\<rparr> initial_world))) ''s1'') =
     Some (Some ''https://share/s1'')"
proof -
  let ?w = "on_session_created 10
          \<lparr>si_id = ''s1'', si_title = Some ''T'', si_parentID = None, si_projectID = None,
           si_directory = None, si_share = None\<rparr> initial_world"
  let ?r = "default_session\<lparr>s_project_id := None, s_parent_id := None, s_directory := None,
      s_title := Some ''T'', s_status := Some ''created''\<rparr>"
  let ?info = "\<lparr>si_id = ''s1'', si_title = None, si_parentID = None, si_projectID = None,
        si_directory = None, si_share = Some (Some ''https://share/s1'')\<rparr>"
  have w: "sessions (store ?w) ''s1'' = Some ?r" "isDatabaseHealthy (gate ?w) 20"
    by (simp_all add: on_session_created_def run_defs)
  have a: "sessions (store ?w) (si_id ?info) = Some ?r \<and> s_title ?r = Some ''T'' \<and>
      or_null (si_title ?info) = None"
    using w(1) by (simp add: or_null_def)
  have b: "sessions (store ?w) (si_id ?info) = Some ?r \<and> isDatabaseHealthy (gate ?w) 20"
    using w by simp
  note kept = C8_session_title_kept [of ?w ?info ?r "''T''" 20, THEN conjunct1, rule_format, OF a]
  note merged = C8_session_title_kept [of ?w ?info ?r "''T''" 20, THEN conjunct2, rule_format, OF b]
  from kept have t: "map_option s_title (sessions (store (on_session_updated 20 ?info ?w)) ''s1'') =
      Some (Some ''T'')"
    by simp
  from merged have u: "map_option s_share_url (sessions (store (on_session_updated 20 ?info ?w)) ''s1'') =
      Some (Some ''https://share/s1'')"
    by (simp add: or_null_def)
  from t u show ?thesis by simp
qed

text \<open>
  Claim C9. A \<^verbatim>\<open>session.error\<close> whose session id is absent changes nothing: no
  write is dispatched. With a session id it dispatches one task of two statements, the
  insert into \<^verbatim>\<open>session_errors\<close> and the update of the session status to
  \<^verbatim>\<open>error\<close>. When the gate admits and the session row exists, the error row is
  appended and the status is set; when the session row does not exist, the insert
  violates the foreign key and the Store stays as it is.
\<close>

theorem C9_session_error:
  "(or_null sessionID = None \<longrightarrow> on_session_error now sessionID err w = w) \<and>
   (or_null sessionID = Some sid \<longrightarrow>
      on_session_error now sessionID err w =
        dispatch now
          [SessionErrorInsert sid
             (case or_null (case err of None \<Rightarrow> None | Some e \<Rightarrow> er_name e) of
                None \<Rightarrow> ''unknown'' | Some n \<Rightarrow> n)
             (or_null (case err of None \<Rightarrow> None
                       | Some e \<Rightarrow> (case er_data e of None \<Rightarrow> None | Some m \<Rightarrow> m)))
             (map_option error_json err),
           SessionStatusError sid] w) \<and>
   (or_null sessionID = Some sid \<and> isDatabaseHealthy (gate w) now \<and>
    sessions (store w) sid = Some r \<longrightarrow>
      session_errors (store (on_session_error now sessionID err w)) =
        session_errors (store w) @
          [\<lparr>se_session_id = sid,
            se_error_type = Some (case or_null (case err of None \<Rightarrow> None | Some e \<Rightarrow> er_name e) of
                None \<Rightarrow> ''unknown'' | Some n \<Rightarrow> n),
            se_error_message = or_null (case err of None \<Rightarrow> None
                       | Some e \<Rightarrow> (case er_data e of None \<Rightarrow> None | Some m \<Rightarrow> m)),
            se_error_data = map_option error_json err\<rparr>] \<and>
      sessions (store (on_session_error now sessionID err w)) =
        (sessions (store w))(sid \<mapsto> r\<lparr>s_status := Some ''error''\<rparr>)) \<and>
   (or_null sessionID = Some sid \<and> sessions (store w) sid = None \<longrightarrow>
      store (on_session_error now sessionID err w) = store w)"
  by (cases "isDatabaseHealthy (gate w) now")
     (simp_all add: on_session_error_def session_error_task_def dispatch_store dispatch_refused
       update_row_def)

text \<open>
  An error for the stored session \<^verbatim>\<open>s1\<close>, without and with its session id, and an
  error for a session that has no row.
\<close>

theorem C9_session_error_witness:
  "on_session_error 10 None (Some \<lparr>er_name = Some ''ApiError'', er_data = Some (Some ''boom'')\<rparr>)
      seeded_world = seeded_world \<and>
   session_errors (store (on_session_error 10 (Some ''s1'')
      (Some \<lparr>er_name = Some ''ApiError'', er_data = Some (Some ''boom'')\<rparr>) seeded_world)) =
     [\<lparr>se_session_id = ''s1'', se_error_type = Some ''ApiError'',
       se_error_message = Some ''boom'',
       se_error_data = Some (JObj [(''name'', JStr ''ApiError''),
          (''data'', JObj [(''message'', JStr ''boom'')])])\<rparr>] \<and>
   map_option s_status (sessions (store (on_session_error 10 (Some ''s1'')
      (Some \<lparr>er_name = Some ''ApiError'', er_data = Some (Some ''boom'')\<rparr>) seeded_world)) ''s1'') =
     Some (Some ''error'') \<and>
   store (on_session_error 10 (Some ''s2'')
      (Some \<lparr>er_name = Some ''ApiError'', er_data = Some (Some ''boom'')\<rparr>) seeded_world) =
     store seeded_world"
proof -
  let ?e = "Some \<lparr>er_name = Some ''ApiError'', er_data = Some (Some ''boom'')\<rparr>"
  let ?r = "default_session\<lparr>s_title := Some ''T'', s_status := Some ''created''\<rparr>"
  from C9_session_error [of None 10 ?e seeded_world "''s1''" ?r]
  have a: "on_session_error 10 None ?e seeded_world = seeded_world"
    by (simp add: or_null_def)
  have p: "or_null (Some ''s1'') = Some ''s1'' \<and> isDatabaseHealthy (gate seeded_world) 10 \<and>
      sessions (store seeded_world) ''s1'' = Some ?r"
    by (simp add: or_null_def seeded_world_record isDatabaseHealthy_def)
  note present = C9_session_error [of "Some ''s1''" 10 ?e seeded_world "''s1''" ?r,
      THEN conjunct2, THEN conjunct2, THEN conjunct1, rule_format, OF p]
  have b: "session_errors (store (on_session_error 10 (Some ''s1'') ?e seeded_world)) =
     [\<lparr>se_session_id = ''s1'', se_error_type = Some ''ApiError'',
       se_error_message = Some ''boom'',
       se_error_data = Some (JObj [(''name'', JStr ''ApiError''),
          (''data'', JObj [(''message'', JStr ''boom'')])])\<rparr>]"
    using present by (simp add: or_null_def error_json_def opt_field_def seeded_world_record)
  have c: "map_option s_status (sessions (store (on_session_error 10 (Some ''s1'') ?e seeded_world))
      ''s1'') = Some (Some ''error'')"
    using present by simp
  have q: "or_null (Some ''s2'') = Some ''s2'' \<and> sessions (store seeded_world) ''s2'' = None"
    by (simp add: or_null_def seeded_world_record)
  note missing = C9_session_error [of "Some ''s2''" 10 ?e seeded_world "''s2''" ?r,
      THEN conjunct2, THEN conjunct2, THEN conjunct2, rule_format, OF q]
  from a b c missing show ?thesis by simp
qed

end
